theory Spec2Isabelle
  imports Complex_Main "HOL-Library.Sublist"
begin

section \<open>The residual heap visitor of src/serializer/ResidualHeapVisitor.js\<close>

text \<open>
  The visitor walks the heap of an abstract interpreter and records which values, bindings
  and closure captures the residual program needs. Values are JavaScript objects compared by
  identity, so the heap is a list of cells and a value is the index of its cell (a handle).
  The visitor's own tables are the fields of the class; the \<open>VisitedBinding\<close> objects it
  allocates are shared between several tables and mutated through any of them, so they live in
  a store of their own and the tables hold addresses into it.
\<close>

subsection \<open>Values\<close>

type_synonym handle = nat
type_synonym envrec = nat
type_synonym lexenv = nat
type_synonym code = nat
type_synonym addr = nat
type_synonym formalParameters = "string list"

datatype prim =
    UndefinedValue
  | NullValue
  | BooleanValue bool
  | NumberValue real
  | StringValue string

record Descriptor =
  desc_value :: "handle option"
  desc_get :: "handle option"
  desc_set :: "handle option"
  writable :: bool
  enumerable :: bool
  configurable :: bool

datatype PropertyBinding = PropertyBinding (descriptor: "Descriptor option")

record MapEntry =
  entry_Key :: "handle option"
  entry_Value :: "handle option"

datatype FunctionVariant =
    PlainFunction (FormalParameters: "formalParameters option") (ECMAScriptCode: "code option")
      (Environment: lexenv) (isResidual: bool)
  | BoundFunction (BoundTargetFunction: handle) (BoundThis: handle) (BoundArguments: "handle list")
  | NativeFunction
  | OtherFunction

record FunctionSlots =
  Strict :: bool
  FunctionKind :: string
  hasDefaultLength :: bool
  variant :: FunctionVariant

datatype Exotic =
    Ordinary
  | Proxy (ProxyTarget: handle) (ProxyHandler: handle)
  | Function FunctionSlots

text \<open>
  The slots of an \<open>ObjectValue\<close> the visitor reads. \<open>properties\<close> is a JavaScript Map, kept
  in insertion order; \<open>kind\<close> is what \<open>getKind()\<close> returns and \<open>extensible\<close> what
  \<open>getExtensible()\<close> returns; \<open>exotic\<close> tells the subclasses \<open>ProxyValue\<close> and
  \<open>FunctionValue\<close> from a plain \<open>ObjectValue\<close>.
\<close>

record object_value =
  properties :: "(string \<times> PropertyBinding option) list"
  unknownProperty :: "PropertyBinding option"
  symbols_size :: nat
  Prototype :: handle
  extensible :: bool
  kind :: string
  originalConstructor :: "handle option"
  DateValue :: "handle option"
  ViewedArrayBuffer :: "handle option"
  MapData :: "MapEntry list option"
  WeakMapData :: "MapEntry list option"
  SetData :: "handle option list option"
  WeakSetData :: "handle option list option"
  ParameterMap :: "handle option"
  exotic :: Exotic

datatype ValueClass =
    AbstractValue (abstract_kind: string) (args: "handle list") (hasIdentifier: bool)
  | EmptyValue
  | SymbolValue
  | PrimitiveValue prim
  | ObjectValue object_value
  | OtherValue

record Value =
  isIntrinsic :: bool
  cls :: ValueClass

subsection \<open>Environment records, references and the collaborators\<close>

record Binding =
  initialized :: bool
  deletable :: bool
  binding_value :: "handle option"

datatype ReferenceBase =
    BaseUndefined
  | GlobalEnvironmentRecord
  | DeclarativeEnvironmentRecord envrec
  | OtherBase

datatype ReferencedName = StringName string | SymbolName handle

datatype Reference = Reference (base: ReferenceBase) (referencedName: ReferencedName)

record FunctionInfo =
  info_names :: "string list"
  info_modified :: "string list"
  usesArguments :: bool
  usesThis :: bool

text \<open>
  Everything the visitor reads and does not own: the heap, the bindings of the declarative
  environment records (\<open>r.bindings[n]\<close>), the realm's intrinsics, and the functions it
  imports from other modules. \<open>ResolveBinding\<close> is the call as the visitor makes it, wrapped
  in \<open>logger.tryQuery(..., undefined, true)\<close>: \<open>None\<close> is the \<open>undefined\<close> that
  \<open>tryQuery\<close> returns when the resolution fails. \<open>Get\<close> returns \<open>None\<close> when it throws.
  \<open>traverse\<close> is the scan of a function's parameters and body with \<open>ClosureRefVisitor\<close>:
  the names the body refers to and does not bind (in \<open>for ... in\<close> order) and those of them
  it assigns to. \<open>generator\<close> lists the values \<open>generator.visit\<close> passes to its callback,
  in order.
\<close>

record Realm =
  heap :: "Value list"
  intrinsics :: "string \<Rightarrow> handle option"
  intrinsics_undefined :: handle
  envBindings :: "envrec \<Rightarrow> string \<Rightarrow> Binding option"
  getGlobalLetBinding :: "string \<Rightarrow> handle option"
  generator :: "handle list option"
  IsArray :: "handle \<Rightarrow> bool"
  Get :: "handle \<Rightarrow> string \<Rightarrow> handle option"
  ResolveBinding :: "string \<Rightarrow> lexenv \<Rightarrow> Reference option"
  traverse :: "formalParameters \<Rightarrow> code \<Rightarrow> FunctionInfo"

text \<open>A handle outside the heap reads as a value of no known class.\<close>

definition lookup :: "Realm \<Rightarrow> handle \<Rightarrow> Value" where
  "lookup R val =
     (if val < length (heap R) then heap R ! val
      else \<lparr>isIntrinsic = False, cls = OtherValue\<rparr>)"

definition isAbstract :: "Realm \<Rightarrow> handle \<Rightarrow> bool" where
  "isAbstract R val = (case cls (lookup R val) of AbstractValue k as i \<Rightarrow> True | _ \<Rightarrow> False)"

definition asObject :: "Realm \<Rightarrow> handle \<Rightarrow> object_value option" where
  "asObject R val = (case cls (lookup R val) of ObjectValue obj \<Rightarrow> Some obj | _ \<Rightarrow> None)"

subsection \<open>The visitor's state\<close>

record VisitedBinding =
  global :: bool
  vb_value :: "handle option"
  modified :: bool
  declarativeEnvironmentRecord :: "envrec option"

datatype Diagnostic =
    LengthAccessorUnsupported
  | ResidualFunctionFreeIdentifiers "string list"
  | UnsupportedObjectKind string
  | ArgumentsObjectUnsupported
  | SentinelMemberExpression

text \<open>
  The six tables of the class, the store of the \<open>VisitedBinding\<close> objects allocated so far
  (an address is an index), and the calls of \<open>logger.logError\<close> in order. \<open>visitedValues\<close>
  (the field \<open>values\<close> of the class) and
  the sets of \<open>ignoredProperties\<close> are JavaScript Sets, kept in insertion order.
\<close>

record Visitor =
  declarativeEnvironmentRecordsBindings :: "envrec \<Rightarrow> (string \<Rightarrow> addr option) option"
  globalBindings :: "string \<Rightarrow> addr option"
  functionInfos :: "code \<Rightarrow> FunctionInfo option"
  functionBindings :: "handle \<Rightarrow> (string \<Rightarrow> addr option) option"
  visitedValues :: "handle list"
  ignoredProperties :: "handle \<Rightarrow> string list option"
  visitedBindings :: "VisitedBinding list"
  logged :: "(handle \<times> Diagnostic) list"

definition newVisitor :: Visitor where
  "newVisitor =
     \<lparr>declarativeEnvironmentRecordsBindings = Map.empty, globalBindings = Map.empty,
      functionInfos = Map.empty, functionBindings = Map.empty, visitedValues = [],
      ignoredProperties = Map.empty, visitedBindings = [], logged = []\<rparr>"

text \<open>\<open>Set.prototype.add\<close>: an element already in the set stays where it is.\<close>

definition Set_add :: "'a \<Rightarrow> 'a list \<Rightarrow> 'a list" where
  "Set_add x xs = (if x \<in> set xs then xs else xs @ [x])"

subsection \<open>Outcomes\<close>

text \<open>
  A method either returns, or throws (a failed \<open>invariant\<close>, the \<open>Error\<close> of
  \<open>visitValueFunction\<close>, a \<open>TypeError\<close> of the runtime, an exception of a collaborator):
  the tables keep what was written before the throw. The recursion through \<open>visitValue\<close>
  is bounded by a fuel that counts its depth; \<open>OutOfFuel\<close> stands for a call that has not
  returned within it.
\<close>

datatype Error = InvariantViolation | SymbolReference | TypeError | Thrown

datatype 'a Outcome = OutOfFuel | Fatal Error Visitor | Ok 'a Visitor

type_synonym 'a M = "Visitor \<Rightarrow> 'a Outcome"

definition bindM :: "'a M \<Rightarrow> ('a \<Rightarrow> 'b M) \<Rightarrow> 'b M" where
  "bindM m f = (\<lambda>st. case m st of OutOfFuel \<Rightarrow> OutOfFuel | Fatal e s \<Rightarrow> Fatal e s | Ok x s \<Rightarrow> f x s)"

definition thenM :: "unit M \<Rightarrow> 'b M \<Rightarrow> 'b M" where
  "thenM m k = bindM m (\<lambda>u. k)"

definition returnM :: "'a \<Rightarrow> 'a M" where
  "returnM x = (\<lambda>st. Ok x st)"

definition skipM :: "unit M" where
  "skipM = returnM ()"

definition failM :: "Error \<Rightarrow> 'a M" where
  "failM e = (\<lambda>st. Fatal e st)"

definition modifyM :: "(Visitor \<Rightarrow> Visitor) \<Rightarrow> unit M" where
  "modifyM g = (\<lambda>st. Ok () (g st))"

definition readM :: "(Visitor \<Rightarrow> 'a) \<Rightarrow> 'a M" where
  "readM g = (\<lambda>st. Ok (g st) st)"

definition whenSome :: "'a option \<Rightarrow> ('a \<Rightarrow> unit M) \<Rightarrow> unit M" where
  "whenSome x f = (case x of None \<Rightarrow> skipM | Some y \<Rightarrow> f y)"

fun forEach :: "('a \<Rightarrow> unit M) \<Rightarrow> 'a list \<Rightarrow> unit M" where
  "forEach f [] = skipM"
| "forEach f (x # xs) = thenM (f x) (forEach f xs)"

definition logError :: "handle \<Rightarrow> Diagnostic \<Rightarrow> unit M" where
  "logError val msg = modifyM (\<lambda>st. st\<lparr>logged := logged st @ [(val, msg)]\<rparr>)"

subsection \<open>Leaves and default descriptors\<close>

text \<open>
  The classes are imported from \<open>values/index.js\<close>: \<open>SymbolValue\<close> and \<open>EmptyValue\<close> are
  primitive values there, and \<open>EmptyValue\<close> extends \<open>UndefinedValue\<close>.
\<close>

definition isLeaf :: "Realm \<Rightarrow> handle \<Rightarrow> bool" where
  "isLeaf R val =
     (case cls (lookup R val) of
        SymbolValue \<Rightarrow> False
      | AbstractValue k as hasId \<Rightarrow> hasId
      | PrimitiveValue p \<Rightarrow> \<not> isIntrinsic (lookup R val)
      | EmptyValue \<Rightarrow> \<not> isIntrinsic (lookup R val)
      | _ \<Rightarrow> False)"

definition isUndefinedValue :: "Realm \<Rightarrow> handle option \<Rightarrow> bool" where
  "isUndefinedValue R v =
     (case v of None \<Rightarrow> False
      | Some h \<Rightarrow> (case cls (lookup R h) of
                    PrimitiveValue UndefinedValue \<Rightarrow> True
                  | EmptyValue \<Rightarrow> True
                  | _ \<Rightarrow> False))"

definition isNumberZero :: "Realm \<Rightarrow> handle option \<Rightarrow> bool" where
  "isNumberZero R v =
     (case v of None \<Rightarrow> False
      | Some h \<Rightarrow> (case cls (lookup R h) of PrimitiveValue (NumberValue x) \<Rightarrow> x = 0 | _ \<Rightarrow> False))"

text \<open>\<open>desc.value instanceof ObjectValue && desc.value.originalConstructor === val\<close>\<close>

definition constructedBy :: "Realm \<Rightarrow> handle option \<Rightarrow> handle \<Rightarrow> bool" where
  "constructedBy R v val =
     (case v of None \<Rightarrow> False
      | Some h \<Rightarrow> (case asObject R h of None \<Rightarrow> False
                  | Some o' \<Rightarrow> originalConstructor o' = Some val))"

text \<open>
  The test that closes \<open>_canIgnoreProperty\<close>. Both sides of \<open>===\<close> may be
  \<open>undefined\<close>, and then they are equal.
\<close>

definition isDefaultConstructorProperty :: "object_value \<Rightarrow> string \<Rightarrow> Descriptor \<Rightarrow> bool" where
  "isDefaultConstructorProperty obj key desc =
     (key = ''constructor'' \<and> configurable desc \<and> \<not> enumerable desc \<and> writable desc
      \<and> desc_value desc = originalConstructor obj)"

definition canIgnoreProperty ::
  "Realm \<Rightarrow> handle \<Rightarrow> object_value \<Rightarrow> string \<Rightarrow> Descriptor \<Rightarrow> bool M" where
  "canIgnoreProperty R val obj key desc =
     (if IsArray R val then
        (if key = ''length'' \<and> writable desc \<and> \<not> enumerable desc \<and> \<not> configurable desc
         then returnM True
         else returnM (isDefaultConstructorProperty obj key desc))
      else case exotic obj of
        Function f \<Rightarrow>
          (if key = ''length'' then
             thenM (if desc_value desc = None then logError val LengthAccessorUnsupported else skipM)
                   (returnM (\<not> writable desc \<and> \<not> enumerable desc \<and> configurable desc
                             \<and> hasDefaultLength f))
           else if key = ''name'' then returnM True
           else if (key = ''arguments'' \<or> key = ''caller'')
                   \<and> \<not> Strict f \<and> writable desc \<and> \<not> enumerable desc \<and> configurable desc
                   \<and> isUndefinedValue R (desc_value desc) \<and> FunctionKind f = ''normal''
             then returnM True
           else if key = ''prototype''
                   \<and> \<not> configurable desc \<and> \<not> enumerable desc \<and> writable desc
                   \<and> constructedBy R (desc_value desc) val
             then returnM True
           else returnM (isDefaultConstructorProperty obj key desc))
      | _ \<Rightarrow>
          (if kind obj = ''RegExp'' \<and> key = ''lastIndex''
              \<and> writable desc \<and> \<not> enumerable desc \<and> \<not> configurable desc
           then returnM (isNumberZero R (desc_value desc))
           else returnM (isDefaultConstructorProperty obj key desc)))"

definition getPropertyValue :: "object_value \<Rightarrow> string \<Rightarrow> handle option" where
  "getPropertyValue obj name =
     (case map_of (properties obj) name of
        Some (Some pb) \<Rightarrow> (case descriptor pb of None \<Rightarrow> None | Some d \<Rightarrow> desc_value d)
      | _ \<Rightarrow> None)"

fun onlyDefaultConstructor :: "object_value \<Rightarrow> string list \<Rightarrow> bool \<Rightarrow> bool" where
  "onlyDefaultConstructor prototype [] foundConstructor = foundConstructor"
| "onlyDefaultConstructor prototype (name # rest) foundConstructor =
     (if name = ''constructor''
         \<and> getPropertyValue prototype name = originalConstructor prototype
      then onlyDefaultConstructor prototype rest True
      else False)"

definition isDefaultPrototype :: "Realm \<Rightarrow> object_value \<Rightarrow> bool" where
  "isDefaultPrototype R prototype =
     (if symbols_size prototype \<noteq> 0
         \<or> Some (Prototype prototype) \<noteq> intrinsics R ''ObjectPrototype''
         \<or> \<not> extensible prototype
      then False
      else onlyDefaultConstructor prototype (map fst (properties prototype)) False)"

subsection \<open>The methods, over the two recursive ones\<close>

text \<open>
  Every method but \<open>visitValue\<close> and \<open>visitObjectPropertiesWithComputedNames\<close> recurses
  only through those two. Each is defined here over \<open>visit\<close> and \<open>chain\<close>, which stand for
  \<open>this.visitValue\<close> and \<open>this.visitObjectPropertiesWithComputedNames\<close>.
\<close>

type_synonym visit = "handle \<Rightarrow> unit M"

definition visitDescriptor :: "visit \<Rightarrow> Descriptor \<Rightarrow> unit M" where
  "visitDescriptor visit desc =
     thenM (whenSome (desc_value desc) visit)
    (thenM (whenSome (desc_get desc) visit)
           (whenSome (desc_set desc) visit))"

definition addIgnoredProperty :: "handle \<Rightarrow> string \<Rightarrow> unit M" where
  "addIgnoredProperty obj key =
     modifyM (\<lambda>st. st\<lparr>ignoredProperties := (ignoredProperties st)
        (obj \<mapsto> Set_add key (case ignoredProperties st obj of None \<Rightarrow> [] | Some s \<Rightarrow> s))\<rparr>)"

text \<open>The body of the loop over \<open>obj.properties\<close>.\<close>

definition visitProperty ::
  "visit \<Rightarrow> Realm \<Rightarrow> handle \<Rightarrow> object_value \<Rightarrow> string \<times> PropertyBinding option \<Rightarrow> unit M" where
  "visitProperty visit R val obj entry =
     (case snd entry of
        None \<Rightarrow> failM InvariantViolation
      | Some propertyBinding \<Rightarrow>
          (case descriptor propertyBinding of
             None \<Rightarrow> skipM
           | Some desc \<Rightarrow>
               bindM (canIgnoreProperty R val obj (fst entry) desc)
                 (\<lambda>ignore. if ignore then addIgnoredProperty val (fst entry)
                            else visitDescriptor visit desc)))"

definition visitObjectPrototype :: "visit \<Rightarrow> Realm \<Rightarrow> object_value \<Rightarrow> unit M" where
  "visitObjectPrototype visit R obj =
     (if intrinsics R (kind obj @ ''Prototype'') = Some (Prototype obj) then skipM
      else visit (Prototype obj))"

definition visitConstructorPrototype :: "visit \<Rightarrow> Realm \<Rightarrow> handle \<Rightarrow> object_value \<Rightarrow> unit M" where
  "visitConstructorPrototype visit R func obj =
     (case getPropertyValue obj ''prototype'' of
        None \<Rightarrow> skipM
      | Some prototype \<Rightarrow>
          (case asObject R prototype of
             None \<Rightarrow> skipM
           | Some p \<Rightarrow>
               if originalConstructor p = Some func \<and> \<not> isDefaultPrototype R p
               then visit prototype else skipM))"

definition visitUnknownProperty :: "visit \<Rightarrow> Realm \<Rightarrow> object_value \<Rightarrow> unit M" where
  "visitUnknownProperty chain R obj =
     (case unknownProperty obj of
        None \<Rightarrow> skipM
      | Some pb \<Rightarrow>
          (case descriptor pb of
             None \<Rightarrow> skipM
           | Some desc \<Rightarrow>
               (case desc_value desc of
                  None \<Rightarrow> failM InvariantViolation
                | Some v \<Rightarrow> if isAbstract R v then chain v else failM InvariantViolation)))"

definition isFunctionValue :: "object_value \<Rightarrow> bool" where
  "isFunctionValue obj = (case exotic obj of Function f \<Rightarrow> True | _ \<Rightarrow> False)"

definition visitObjectProperties ::
  "visit \<Rightarrow> visit \<Rightarrow> Realm \<Rightarrow> handle \<Rightarrow> object_value \<Rightarrow> unit M" where
  "visitObjectProperties visit chain R val obj =
     thenM (forEach (visitProperty visit R val obj) (properties obj))
    (thenM (visitUnknownProperty chain R obj)
    (thenM (visitObjectPrototype visit R obj)
           (if isFunctionValue obj then visitConstructorPrototype visit R val obj else skipM)))"

text \<open>\<open>val instanceof AbstractValue\<close>, with the \<open>kind\<close> and the \<open>args\<close> of the value.\<close>

definition asAbstract :: "Realm \<Rightarrow> handle \<Rightarrow> (string \<times> handle list) option" where
  "asAbstract R val =
     (case cls (lookup R val) of AbstractValue k as i \<Rightarrow> Some (k, as) | _ \<Rightarrow> None)"

text \<open>
  \<open>visitObjectPropertiesWithComputedNames(absVal)\<close>, given the recursive calls. The
  callers pass an abstract value; \<open>cond.args[0]\<close> is \<open>undefined\<close> when \<open>cond\<close> has no
  operand, and the \<open>invariant\<close> on it fails then.
\<close>

definition visitTemplate :: "visit \<Rightarrow> visit \<Rightarrow> Realm \<Rightarrow> handle list \<Rightarrow> handle list \<Rightarrow> unit M" where
  "visitTemplate visit chain R condArgs as =
     (case condArgs of
        [] \<Rightarrow> failM InvariantViolation
      | P # rest \<Rightarrow>
          if isAbstract R P then
            thenM (if isAbstract R (as ! 2) then chain (as ! 2) else skipM)
           (thenM (visit P) (visit (as ! 1)))
          else failM InvariantViolation)"

definition visitConditional :: "visit \<Rightarrow> visit \<Rightarrow> Realm \<Rightarrow> handle list \<Rightarrow> unit M" where
  "visitConditional visit chain R as =
     thenM (visit (as ! 0))
       (if \<not> isAbstract R (as ! 1) then failM InvariantViolation
        else if \<not> isAbstract R (as ! 2) then failM InvariantViolation
        else thenM (chain (as ! 1)) (chain (as ! 2)))"

definition visitObjectPropertiesWithComputedNames_body ::
  "visit \<Rightarrow> visit \<Rightarrow> Realm \<Rightarrow> handle \<Rightarrow> unit M" where
  "visitObjectPropertiesWithComputedNames_body visit chain R absVal =
     (case asAbstract R absVal of
        None \<Rightarrow> failM InvariantViolation
      | Some absVal' \<Rightarrow>
          if length (snd absVal') \<noteq> 3 then failM InvariantViolation
          else
            (case asAbstract R (snd absVal' ! 0) of
               None \<Rightarrow> failM InvariantViolation
             | Some cond \<Rightarrow>
                 if fst cond = ''template for property name condition''
                 then visitTemplate visit chain R (snd cond) (snd absVal')
                 else visitConditional visit chain R (snd absVal')))"

subsection \<open>Bindings\<close>

definition setModified :: "addr \<Rightarrow> unit M" where
  "setModified a =
     modifyM (\<lambda>st. st\<lparr>visitedBindings :=
        (visitedBindings st)[a := (visitedBindings st ! a)\<lparr>modified := True\<rparr>]\<rparr>)"

text \<open>
  \<open>visitDeclarativeEnvironmentRecordBinding\<close> up to its call of \<open>visitValue\<close>: the
  memoized binding of \<open>(r, n)\<close>, or a new one, stored under \<open>(r, n)\<close>, together with the
  value that is still to be visited.
\<close>

definition declarativeBinding :: "Realm \<Rightarrow> envrec \<Rightarrow> string \<Rightarrow> (addr \<times> handle option) M" where
  "declarativeBinding R r n =
     (\<lambda>st0.
        let st = (case declarativeEnvironmentRecordsBindings st0 r of
                    None \<Rightarrow> st0\<lparr>declarativeEnvironmentRecordsBindings :=
                              (declarativeEnvironmentRecordsBindings st0)(r \<mapsto> Map.empty)\<rparr>
                  | Some vbs \<Rightarrow> st0);
            visitedBindings' = (case declarativeEnvironmentRecordsBindings st0 r of
                                  None \<Rightarrow> Map.empty | Some vbs \<Rightarrow> vbs)
        in case visitedBindings' n of
             Some visitedBinding \<Rightarrow> Ok (visitedBinding, None) st
           | None \<Rightarrow>
               (case envBindings R r n of
                  None \<Rightarrow> Fatal TypeError st
                | Some binding \<Rightarrow>
                    if deletable binding then Fatal InvariantViolation st
                    else
                      let v = (if initialized binding
                               then (case binding_value binding of
                                       Some bv \<Rightarrow> bv | None \<Rightarrow> intrinsics_undefined R)
                               else intrinsics_undefined R);
                          a = length (visitedBindings st)
                      in Ok (a, Some v)
                           (st\<lparr>visitedBindings := visitedBindings st @
                                  [\<lparr>global = False, vb_value = Some v, modified = False,
                                    declarativeEnvironmentRecord = Some r\<rparr>],
                                declarativeEnvironmentRecordsBindings :=
                                  (declarativeEnvironmentRecordsBindings st)
                                     (r \<mapsto> visitedBindings'(n \<mapsto> a))\<rparr>)))"

definition visitDeclarativeEnvironmentRecordBinding ::
  "visit \<Rightarrow> Realm \<Rightarrow> envrec \<Rightarrow> string \<Rightarrow> addr M" where
  "visitDeclarativeEnvironmentRecordBinding visit R r n =
     bindM (declarativeBinding R r n)
       (\<lambda>found. thenM (whenSome (snd found) visit) (returnM (fst found)))"

text \<open>
  \<open>visitGlobalBinding\<close> up to its call of \<open>visitValue\<close>, in the same way. A global
  binding is born modified, and its value is the global \<open>let\<close> binding of the name, if any.
\<close>

definition globalBinding :: "Realm \<Rightarrow> string \<Rightarrow> (addr \<times> handle option) M" where
  "globalBinding R key =
     (\<lambda>st. case globalBindings st key of
        Some binding \<Rightarrow> Ok (binding, None) st
      | None \<Rightarrow>
          let a = length (visitedBindings st) in
          Ok (a, getGlobalLetBinding R key)
             (st\<lparr>visitedBindings := visitedBindings st @
                    [\<lparr>global = True, vb_value = getGlobalLetBinding R key, modified = True,
                      declarativeEnvironmentRecord = None\<rparr>],
                  globalBindings := (globalBindings st)(key \<mapsto> a)\<rparr>))"

definition visitGlobalBinding :: "visit \<Rightarrow> Realm \<Rightarrow> string \<Rightarrow> addr M" where
  "visitGlobalBinding visit R key =
     bindM (globalBinding R key)
       (\<lambda>found. thenM (whenSome (snd found) visit) (returnM (fst found)))"

subsection \<open>One method for each kind of value\<close>

definition visitValueArray :: "visit \<Rightarrow> visit \<Rightarrow> Realm \<Rightarrow> handle \<Rightarrow> object_value \<Rightarrow> unit M" where
  "visitValueArray visit chain R val obj =
     thenM (visitObjectProperties visit chain R val obj)
       (case Get R val ''length'' of
          None \<Rightarrow> failM Thrown
        | Some lenProperty \<Rightarrow> if isAbstract R lenProperty then visit lenProperty else skipM)"

definition visitMapEntry :: "visit \<Rightarrow> MapEntry \<Rightarrow> unit M" where
  "visitMapEntry visit entry =
     (case entry_Key entry of
        None \<Rightarrow> skipM
      | Some key \<Rightarrow>
          (case entry_Value entry of
             None \<Rightarrow> skipM
           | Some v \<Rightarrow> thenM (visit key) (visit v)))"

definition visitValueMap :: "visit \<Rightarrow> object_value \<Rightarrow> unit M" where
  "visitValueMap visit obj =
     (if kind obj = ''Map'' then
        (case MapData obj of
           None \<Rightarrow> failM InvariantViolation
         | Some entries \<Rightarrow> forEach (visitMapEntry visit) entries)
      else if kind obj = ''WeakMap'' then
        (case WeakMapData obj of
           None \<Rightarrow> failM InvariantViolation
         | Some entries \<Rightarrow> forEach (visitMapEntry visit) entries)
      else failM InvariantViolation)"

definition visitValueSet :: "visit \<Rightarrow> object_value \<Rightarrow> unit M" where
  "visitValueSet visit obj =
     (if kind obj = ''Set'' then
        (case SetData obj of
           None \<Rightarrow> failM InvariantViolation
         | Some entries \<Rightarrow> forEach (\<lambda>entry. whenSome entry visit) entries)
      else if kind obj = ''WeakSet'' then
        (case WeakSetData obj of
           None \<Rightarrow> failM InvariantViolation
         | Some entries \<Rightarrow> forEach (\<lambda>entry. whenSome entry visit) entries)
      else failM InvariantViolation)"

text \<open>
  \<open>functionInfos.get(code)\<close>, computed and stored on the first visit of a body, with the
  diagnostic for a residual function that refers to outer identifiers.
\<close>

definition getFunctionInfo ::
  "Realm \<Rightarrow> handle \<Rightarrow> formalParameters \<Rightarrow> code \<Rightarrow> bool \<Rightarrow> FunctionInfo M" where
  "getFunctionInfo R val formalParameters c residual =
     (\<lambda>st. case functionInfos st c of
        Some functionInfo \<Rightarrow> Ok functionInfo st
      | None \<Rightarrow>
          let functionInfo = traverse R formalParameters c;
              st1 = st\<lparr>functionInfos := (functionInfos st)(c \<mapsto> functionInfo)\<rparr>
          in Ok functionInfo
               (if residual \<and> info_names functionInfo \<noteq> []
                then st1\<lparr>logged := logged st1 @
                       [(val, ResidualFunctionFreeIdentifiers (info_names functionInfo))]\<rparr>
                else st1))"

text \<open>What one free name of the body resolves to: the \<open>VisitedBinding\<close> it captures.\<close>

definition resolveCapture :: "visit \<Rightarrow> Realm \<Rightarrow> lexenv \<Rightarrow> string \<Rightarrow> addr M" where
  "resolveCapture visit R env innerName =
     (case ResolveBinding R innerName env of
        None \<Rightarrow> visitGlobalBinding visit R innerName
      | Some reference \<Rightarrow>
          if base reference = BaseUndefined then failM InvariantViolation
          else
            (case referencedName reference of
               SymbolName s \<Rightarrow> failM SymbolReference
             | StringName referencedName' \<Rightarrow>
                 (case base reference of
                    GlobalEnvironmentRecord \<Rightarrow> visitGlobalBinding visit R referencedName'
                  | DeclarativeEnvironmentRecord r \<Rightarrow>
                      visitDeclarativeEnvironmentRecordBinding visit R r referencedName'
                  | _ \<Rightarrow> failM InvariantViolation)))"

text \<open>The loop over \<open>functionInfo.names\<close>, building the local \<open>visitedBindings\<close>.\<close>

fun visitCaptures ::
  "visit \<Rightarrow> Realm \<Rightarrow> lexenv \<Rightarrow> FunctionInfo \<Rightarrow> string list
     \<Rightarrow> (string \<Rightarrow> addr option) \<Rightarrow> (string \<Rightarrow> addr option) M" where
  "visitCaptures visit R env functionInfo [] visitedBindings' = returnM visitedBindings'"
| "visitCaptures visit R env functionInfo (innerName # rest) visitedBindings' =
     bindM (resolveCapture visit R env innerName)
       (\<lambda>visitedBinding.
          thenM (if innerName \<in> set (info_modified functionInfo)
                 then setModified visitedBinding else skipM)
                (visitCaptures visit R env functionInfo rest
                   (visitedBindings'(innerName \<mapsto> visitedBinding))))"

definition visitValueFunction ::
  "visit \<Rightarrow> visit \<Rightarrow> Realm \<Rightarrow> handle \<Rightarrow> object_value \<Rightarrow> FunctionSlots \<Rightarrow> unit M" where
  "visitValueFunction visit chain R val obj f =
     thenM (visitObjectProperties visit chain R val obj)
       (case variant f of
          BoundFunction target this boundArgs \<Rightarrow>
            thenM (visit target) (thenM (visit this) (forEach visit boundArgs))
        | NativeFunction \<Rightarrow> skipM
        | OtherFunction \<Rightarrow> failM InvariantViolation
        | PlainFunction formalParameters' code' env residual \<Rightarrow>
            (case formalParameters' of
               None \<Rightarrow> failM InvariantViolation
             | Some formalParameters \<Rightarrow>
                 (case code' of
                    None \<Rightarrow> failM InvariantViolation
                  | Some c \<Rightarrow>
                      bindM (getFunctionInfo R val formalParameters c residual)
                        (\<lambda>functionInfo.
                           bindM (visitCaptures visit R env functionInfo
                                    (info_names functionInfo) Map.empty)
                             (\<lambda>visitedBindings'.
                                modifyM (\<lambda>st. st\<lparr>functionBindings :=
                                  (functionBindings st)(val \<mapsto> visitedBindings')\<rparr>))))))"

text \<open>
  In the default case of \<open>visitValueObject\<close> the test for an arguments object reads
  \<open>this.$ParameterMap\<close>, and \<open>this\<close> is the visitor: the class declares no such field, so
  the read gives \<open>undefined\<close> whatever the object is.
\<close>

definition visitor_ParameterMap :: "Visitor \<Rightarrow> handle option" where
  "visitor_ParameterMap this = None"

definition typedArrayKinds :: "string list" where
  "typedArrayKinds =
     [''Float32Array'', ''Float64Array'', ''Int8Array'', ''Int16Array'', ''Int32Array'',
      ''Uint8Array'', ''Uint16Array'', ''Uint32Array'', ''Uint8ClampedArray'', ''DataView'']"

definition visitValueObject :: "visit \<Rightarrow> visit \<Rightarrow> Realm \<Rightarrow> handle \<Rightarrow> object_value \<Rightarrow> unit M" where
  "visitValueObject visit chain R val obj =
     thenM (visitObjectProperties visit chain R val obj)
       (case originalConstructor obj of
          Some constructor \<Rightarrow> visit constructor
        | None \<Rightarrow>
            if kind obj \<in> set [''RegExp'', ''Number'', ''String'', ''Boolean'', ''ArrayBuffer'']
              then skipM
            else if kind obj = ''Date'' then
              (case DateValue obj of
                 None \<Rightarrow> failM InvariantViolation
               | Some dateValue \<Rightarrow> visit dateValue)
            else if kind obj \<in> set typedArrayKinds then
              (case ViewedArrayBuffer obj of
                 None \<Rightarrow> failM InvariantViolation
               | Some buf \<Rightarrow> visit buf)
            else if kind obj = ''Map'' \<or> kind obj = ''WeakMap'' then visitValueMap visit obj
            else if kind obj = ''Set'' \<or> kind obj = ''WeakSet'' then visitValueSet visit obj
            else
              thenM (if kind obj \<noteq> ''Object''
                     then logError val (UnsupportedObjectKind (kind obj)) else skipM)
                    (bindM (readM visitor_ParameterMap)
                       (\<lambda>parameterMap. if parameterMap \<noteq> None
                                        then logError val ArgumentsObjectUnsupported else skipM)))"

definition visitValueProxy :: "visit \<Rightarrow> handle \<Rightarrow> handle \<Rightarrow> unit M" where
  "visitValueProxy visit target handler = thenM (visit target) (visit handler)"

definition visitAbstractValue :: "visit \<Rightarrow> handle \<Rightarrow> string \<Rightarrow> handle list \<Rightarrow> unit M" where
  "visitAbstractValue visit val k as =
     thenM (if k = ''sentinel member expression''
            then logError val SentinelMemberExpression else skipM)
           (forEach visit as)"

text \<open>\<open>val instanceof ProxyValue\<close> and \<open>val instanceof FunctionValue\<close>, with the slots.\<close>

definition asProxy :: "Realm \<Rightarrow> handle \<Rightarrow> (handle \<times> handle) option" where
  "asProxy R val =
     (case asObject R val of
        None \<Rightarrow> None
      | Some obj \<Rightarrow> (case exotic obj of Proxy target handler \<Rightarrow> Some (target, handler)
                                      | _ \<Rightarrow> None))"

definition asFunction :: "Realm \<Rightarrow> handle \<Rightarrow> (object_value \<times> FunctionSlots) option" where
  "asFunction R val =
     (case asObject R val of
        None \<Rightarrow> None
      | Some obj \<Rightarrow> (case exotic obj of Function f \<Rightarrow> Some (obj, f) | _ \<Rightarrow> None))"

text \<open>The dispatch of \<open>visitValue\<close> on a value that has just been added to \<open>values\<close>.\<close>

definition dispatch :: "visit \<Rightarrow> visit \<Rightarrow> Realm \<Rightarrow> handle \<Rightarrow> unit M" where
  "dispatch visit chain R val =
     (case asAbstract R val of
        Some absVal \<Rightarrow> visitAbstractValue visit val (fst absVal) (snd absVal)
      | None \<Rightarrow>
          if isIntrinsic (lookup R val) then skipM
          else if cls (lookup R val) = EmptyValue then skipM
          else if isLeaf R val then skipM
          else if IsArray R val then
            (case asObject R val of
               None \<Rightarrow> failM InvariantViolation
             | Some obj \<Rightarrow> visitValueArray visit chain R val obj)
          else
            (case asProxy R val of
               Some proxy \<Rightarrow> visitValueProxy visit (fst proxy) (snd proxy)
             | None \<Rightarrow>
                 (case asFunction R val of
                    Some func \<Rightarrow> visitValueFunction visit chain R val (fst func) (snd func)
                  | None \<Rightarrow>
                      if cls (lookup R val) = SymbolValue then skipM
                      else
                        (case asObject R val of
                           Some obj \<Rightarrow> visitValueObject visit chain R val obj
                         | None \<Rightarrow> failM InvariantViolation))))"

definition addValue :: "handle \<Rightarrow> unit M" where
  "addValue val = modifyM (\<lambda>st. st\<lparr>visitedValues := Set_add val (visitedValues st)\<rparr>)"

definition visitValue_body :: "visit \<Rightarrow> visit \<Rightarrow> Realm \<Rightarrow> handle \<Rightarrow> unit M" where
  "visitValue_body visit chain R val =
     bindM (readM (\<lambda>st. val \<in> set (visitedValues st)))
       (\<lambda>seen. if seen then skipM
                else thenM (addValue val) (dispatch visit chain R val))"

subsection \<open>The recursion\<close>

text \<open>
  \<open>visitValue\<close> and \<open>visitObjectPropertiesWithComputedNames\<close> call each other and
  themselves. The first argument bounds the depth of these calls.
\<close>

fun visitValue :: "nat \<Rightarrow> Realm \<Rightarrow> handle \<Rightarrow> unit M"
and visitObjectPropertiesWithComputedNames :: "nat \<Rightarrow> Realm \<Rightarrow> handle \<Rightarrow> unit M" where
  "visitValue 0 R val st = OutOfFuel"
| "visitValue (Suc n) R val st =
     visitValue_body (\<lambda>v s. visitValue n R v s)
       (\<lambda>a s. visitObjectPropertiesWithComputedNames n R a s) R val st"
| "visitObjectPropertiesWithComputedNames 0 R absVal st = OutOfFuel"
| "visitObjectPropertiesWithComputedNames (Suc n) R absVal st =
     visitObjectPropertiesWithComputedNames_body (\<lambda>v s. visitValue n R v s)
       (\<lambda>a s. visitObjectPropertiesWithComputedNames n R a s) R absVal st"

definition visitGenerator :: "visit \<Rightarrow> handle list \<Rightarrow> unit M" where
  "visitGenerator visit g = forEach visit g"

definition visitRoots :: "nat \<Rightarrow> Realm \<Rightarrow> (string \<times> handle) list \<Rightarrow> unit M" where
  "visitRoots n R initializedModules =
     thenM (case generator R of None \<Rightarrow> skipM | Some g \<Rightarrow> visitGenerator (visitValue n R) g)
           (forEach (\<lambda>entry. visitValue n R (snd entry)) initializedModules)"

section \<open>Properties of a pass\<close>

subsection \<open>What a call may change\<close>

definition vb_le :: "VisitedBinding \<Rightarrow> VisitedBinding \<Rightarrow> bool" where
  "vb_le b b' = (global b' = global b \<and> vb_value b' = vb_value b
      \<and> declarativeEnvironmentRecord b' = declarativeEnvironmentRecord b
      \<and> (modified b \<longrightarrow> modified b'))"

definition bindings_grow :: "Visitor \<Rightarrow> Visitor \<Rightarrow> bool" where
  "bindings_grow st st' =
     (length (visitedBindings st) \<le> length (visitedBindings st')
      \<and> (\<forall>a < length (visitedBindings st). vb_le (visitedBindings st ! a) (visitedBindings st' ! a)))"

definition tables_grow :: "Visitor \<Rightarrow> Visitor \<Rightarrow> bool" where
  "tables_grow st st' =
     (globalBindings st \<subseteq>\<^sub>m globalBindings st'
      \<and> functionInfos st \<subseteq>\<^sub>m functionInfos st'
      \<and> (\<forall>r m. declarativeEnvironmentRecordsBindings st r = Some m \<longrightarrow>
             (\<exists>m'. declarativeEnvironmentRecordsBindings st' r = Some m' \<and> m \<subseteq>\<^sub>m m'))
      \<and> (\<forall>v s. ignoredProperties st v = Some s \<longrightarrow>
             (\<exists>s'. ignoredProperties st' v = Some s' \<and> prefix s s')))"

definition values_grow :: "Visitor \<Rightarrow> Visitor \<Rightarrow> bool" where
  "values_grow st st' =
     (prefix (visitedValues st) (visitedValues st')
      \<and> (distinct (visitedValues st) \<longrightarrow> distinct (visitedValues st'))
      \<and> prefix (logged st) (logged st'))"

definition captures_kept :: "handle set \<Rightarrow> Visitor \<Rightarrow> Visitor \<Rightarrow> bool" where
  "captures_kept X st st' =
     (\<forall>f \<in> set (visitedValues st) - X. functionBindings st' f = functionBindings st f)"

definition tables_ok :: "Visitor \<Rightarrow> bool" where
  "tables_ok st =
     ((\<forall>k a. globalBindings st k = Some a \<longrightarrow>
          a < length (visitedBindings st) \<and> global (visitedBindings st ! a))
      \<and> (\<forall>r m n a. declarativeEnvironmentRecordsBindings st r = Some m \<longrightarrow> m n = Some a \<longrightarrow>
            a < length (visitedBindings st) \<and> \<not> global (visitedBindings st ! a)
            \<and> declarativeEnvironmentRecord (visitedBindings st ! a) = Some r))"

definition extends :: "handle set \<Rightarrow> Visitor \<Rightarrow> Visitor \<Rightarrow> bool" where
  "extends X st st' =
     (values_grow st st' \<and> bindings_grow st st' \<and> tables_grow st st' \<and> captures_kept X st st'
      \<and> (tables_ok st \<longrightarrow> tables_ok st'))"

definition sound :: "handle set \<Rightarrow> 'a M \<Rightarrow> bool" where
  "sound X m = (\<forall>st. case m st of OutOfFuel \<Rightarrow> True | Fatal e st' \<Rightarrow> extends X st st'
                       | Ok x st' \<Rightarrow> extends X st st')"

subsection \<open>The live entries of a map\<close>


subsection \<open>The state a call leaves\<close>

definition stateOf :: "'a Outcome \<Rightarrow> Visitor option" where
  "stateOf r = (case r of OutOfFuel \<Rightarrow> None | Fatal e st \<Rightarrow> Some st | Ok x st \<Rightarrow> Some st)"

subsection \<open>What a free name resolves to\<close>




subsection \<open>More fuel\<close>

text \<open>
  \<open>m'\<close> does what \<open>m\<close> does wherever \<open>m\<close> returns or throws within its fuel.
\<close>

definition refines :: "'a M \<Rightarrow> 'a M \<Rightarrow> bool" where
  "refines m m' = (\<forall>st. m st = OutOfFuel \<or> m st = m' st)"

subsection \<open>Termination\<close>

text \<open>
  The operands of an abstract value. An \<open>AbstractValue\<close> gets its \<open>args\<close> when it is
  constructed and they are not assigned afterwards, so every operand was allocated before the
  value: its handle is smaller. Objects are mutable and may refer to any value, themselves
  included.
\<close>

definition operands :: "Realm \<Rightarrow> handle \<Rightarrow> handle list" where
  "operands R val = (case asAbstract R val of None \<Rightarrow> [] | Some absVal \<Rightarrow> snd absVal)"

definition abstract_operands_earlier :: "Realm \<Rightarrow> bool" where
  "abstract_operands_earlier R =
     list_all (\<lambda>val. list_all (\<lambda>a. a < val) (operands R val)) [0..<length (heap R)]"

text \<open>The number of values of the heap that are not in the visited set yet.\<close>

definition unvisited :: "Realm \<Rightarrow> Visitor \<Rightarrow> nat" where
  "unvisited R st = card ({..<length (heap R)} - set (visitedValues st))"

text \<open>
  With at most \<open>k\<close> values of the heap unvisited, \<open>m\<close> returns or throws within its fuel,
  and leaves no more values unvisited than it found.
\<close>

definition halts :: "Realm \<Rightarrow> nat \<Rightarrow> 'a M \<Rightarrow> bool" where
  "halts R k m =
     (\<forall>st. unvisited R st \<le> k \<longrightarrow>
        (case m st of OutOfFuel \<Rightarrow> False
         | Fatal e st' \<Rightarrow> unvisited R st' \<le> unvisited R st
         | Ok x st' \<Rightarrow> unvisited R st' \<le> unvisited R st))"

text \<open>
  A depth of recursion that is enough when \<open>k\<close> values are unvisited: each newly visited
  value costs one call of \<open>visitValue\<close> and at most as many nested calls of
  \<open>visitObjectPropertiesWithComputedNames\<close> as the heap has cells.
\<close>

definition fuelFor :: "Realm \<Rightarrow> nat \<Rightarrow> nat" where
  "fuelFor R k = k * (length (heap R) + 1) + 1"

subsection \<open>The rest of the visit of an object\<close>

text \<open>
  What \<open>visitValueArray\<close>, \<open>visitValueFunction\<close> and \<open>visitValueObject\<close> do once
  their call of \<open>visitObjectProperties\<close> has returned: the length of an array, the target
  and arguments of a bound function or the captures of a plain one, the constructor or the
  internal slots of any other object.
\<close>

definition afterObjectProperties :: "visit \<Rightarrow> Realm \<Rightarrow> handle \<Rightarrow> object_value \<Rightarrow> unit M" where
  "afterObjectProperties visit R val obj =
     (if IsArray R val then
        (case Get R val ''length'' of
           None \<Rightarrow> failM Thrown
         | Some lenProperty \<Rightarrow> if isAbstract R lenProperty then visit lenProperty else skipM)
      else case exotic obj of
        Function f \<Rightarrow>
          (case variant f of
             BoundFunction target this boundArgs \<Rightarrow>
               thenM (visit target) (thenM (visit this) (forEach visit boundArgs))
           | NativeFunction \<Rightarrow> skipM
           | OtherFunction \<Rightarrow> failM InvariantViolation
           | PlainFunction formalParameters' code' env residual \<Rightarrow>
               (case formalParameters' of
                  None \<Rightarrow> failM InvariantViolation
                | Some formalParameters \<Rightarrow>
                    (case code' of
                       None \<Rightarrow> failM InvariantViolation
                     | Some c \<Rightarrow>
                         bindM (getFunctionInfo R val formalParameters c residual)
                           (\<lambda>functionInfo.
                              bindM (visitCaptures visit R env functionInfo
                                       (info_names functionInfo) Map.empty)
                                (\<lambda>visitedBindings'.
                                   modifyM (\<lambda>st. st\<lparr>functionBindings :=
                                     (functionBindings st)(val \<mapsto> visitedBindings')\<rparr>))))))
      | _ \<Rightarrow>
          (case originalConstructor obj of
             Some constructor \<Rightarrow> visit constructor
           | None \<Rightarrow>
               if kind obj \<in> set [''RegExp'', ''Number'', ''String'', ''Boolean'', ''ArrayBuffer'']
                 then skipM
               else if kind obj = ''Date'' then
                 (case DateValue obj of
                    None \<Rightarrow> failM InvariantViolation
                  | Some dateValue \<Rightarrow> visit dateValue)
               else if kind obj \<in> set typedArrayKinds then
                 (case ViewedArrayBuffer obj of
                    None \<Rightarrow> failM InvariantViolation
                  | Some buf \<Rightarrow> visit buf)
               else if kind obj = ''Map'' \<or> kind obj = ''WeakMap'' then visitValueMap visit obj
               else if kind obj = ''Set'' \<or> kind obj = ''WeakSet'' then visitValueSet visit obj
               else
                 thenM (if kind obj \<noteq> ''Object''
                        then logError val (UnsupportedObjectKind (kind obj)) else skipM)
                       (bindM (readM visitor_ParameterMap)
                          (\<lambda>parameterMap. if parameterMap \<noteq> None
                                           then logError val ArgumentsObjectUnsupported
                                           else skipM))))"

section \<open>A heap to run the visitor on\<close>

text \<open>
  A small realm with the shapes the properties below are about: the intrinsic prototypes, two
  arrays, an object that is its own prototype, a \<open>Map\<close> with a cleared entry, a closure over
  a lexical and a global name, a closure over a symbol-named binding, a \<open>Date\<close> that is the
  prototype object of a constructor, an arguments object, two bound functions bound to
  each other, a sentinel member expression, a \<open>WeakMap\<close> with a cleared entry, and a
  closure over a binding that can be deleted (as a \<open>var\<close> declared by \<open>eval\<close> can).
\<close>

definition plainObject :: object_value where
  "plainObject =
     \<lparr>properties = [], unknownProperty = None, symbols_size = 0, Prototype = 0,
      extensible = True, kind = ''Object'', originalConstructor = None, DateValue = None,
      ViewedArrayBuffer = None, MapData = None, WeakMapData = None, SetData = None,
      WeakSetData = None, ParameterMap = None, exotic = Ordinary\<rparr>"

definition concrete :: "ValueClass \<Rightarrow> Value" where
  "concrete c = \<lparr>isIntrinsic = False, cls = c\<rparr>"

definition intrinsic :: "ValueClass \<Rightarrow> Value" where
  "intrinsic c = \<lparr>isIntrinsic = True, cls = c\<rparr>"

definition dataProperty :: "handle \<Rightarrow> bool \<Rightarrow> bool \<Rightarrow> bool \<Rightarrow> PropertyBinding option" where
  "dataProperty v w e c =
     Some (PropertyBinding (Some \<lparr>desc_value = Some v, desc_get = None, desc_set = None,
                                   writable = w, enumerable = e, configurable = c\<rparr>))"

definition functionObject :: "FunctionVariant \<Rightarrow> object_value" where
  "functionObject v =
     plainObject\<lparr>Prototype := 3, kind := ''Function'',
       exotic := Function \<lparr>Strict = False, FunctionKind = ''normal'', hasDefaultLength = True,
                            variant = v\<rparr>\<rparr>"

definition exampleArray :: object_value where
  "exampleArray =
     plainObject\<lparr>properties := [(''length'', dataProperty 5 True False False)],
                 Prototype := 2, kind := ''Array''\<rparr>"

definition exampleOddArray :: object_value where
  "exampleOddArray =
     plainObject\<lparr>properties := [(''length'', dataProperty 5 True True False)],
                 Prototype := 0, kind := ''Array''\<rparr>"

definition exampleMap :: object_value where
  "exampleMap =
     plainObject\<lparr>kind := ''Map'',
       MapData := Some [\<lparr>entry_Key = Some 11, entry_Value = Some 5\<rparr>,
                        \<lparr>entry_Key = None, entry_Value = Some 12\<rparr>,
                        \<lparr>entry_Key = Some 13, entry_Value = Some 4\<rparr>]\<rparr>"

definition exampleClosure :: object_value where
  "exampleClosure = functionObject (PlainFunction (Some []) (Some 0) 0 False)"

definition exampleSymbolClosure :: object_value where
  "exampleSymbolClosure = functionObject (PlainFunction (Some []) (Some 1) 1 False)"

definition exampleEvalClosure :: object_value where
  "exampleEvalClosure = functionObject (PlainFunction (Some []) (Some 2) 0 False)"

definition exampleWeakMap :: object_value where
  "exampleWeakMap =
     plainObject\<lparr>kind := ''WeakMap'',
       WeakMapData := Some [\<lparr>entry_Key = Some 8, entry_Value = Some 5\<rparr>,
                            \<lparr>entry_Key = Some 9, entry_Value = None\<rparr>]\<rparr>"

definition exampleDate :: object_value where
  "exampleDate =
     plainObject\<lparr>kind := ''Date'', originalConstructor := Some 14, DateValue := Some 11\<rparr>"

definition exampleArguments :: object_value where
  "exampleArguments = plainObject\<lparr>ParameterMap := Some 8\<rparr>"

definition exampleHeap :: "Value list" where
  "exampleHeap =
     [intrinsic (ObjectValue (plainObject\<lparr>Prototype := 1\<rparr>)),
      concrete (PrimitiveValue NullValue),
      intrinsic (ObjectValue (plainObject\<lparr>kind := ''Array''\<rparr>)),
      intrinsic (ObjectValue ((functionObject NativeFunction)\<lparr>Prototype := 0\<rparr>)),
      concrete (PrimitiveValue UndefinedValue),
      concrete (PrimitiveValue (NumberValue 2)),
      concrete (ObjectValue exampleArray),
      concrete (ObjectValue exampleOddArray),
      concrete (ObjectValue plainObject),
      concrete (ObjectValue (plainObject\<lparr>Prototype := 9\<rparr>)),
      concrete (ObjectValue exampleMap),
      concrete (PrimitiveValue (StringValue ''a'')),
      concrete (PrimitiveValue (StringValue ''b'')),
      concrete (PrimitiveValue (StringValue ''c'')),
      concrete (ObjectValue exampleClosure),
      concrete (AbstractValue ''x'' [5] True),
      concrete (ObjectValue exampleSymbolClosure),
      concrete SymbolValue,
      concrete (ObjectValue exampleDate),
      concrete (ObjectValue exampleArguments),
      concrete (ObjectValue (functionObject (BoundFunction 21 8 []))),
      concrete (ObjectValue (functionObject (BoundFunction 20 9 [5]))),
      concrete (AbstractValue ''sentinel member expression'' [8, 11] False),
      concrete (ObjectValue exampleWeakMap),
      concrete (ObjectValue exampleEvalClosure)]"

definition exampleScan :: "formalParameters \<Rightarrow> code \<Rightarrow> FunctionInfo" where
  "exampleScan ps c =
     (if c = 0 then \<lparr>info_names = [''x'', ''y''], info_modified = [''x''],
                      usesArguments = False, usesThis = False\<rparr>
      else if c = 2 then \<lparr>info_names = [''d'', ''y''], info_modified = [],
                           usesArguments = False, usesThis = False\<rparr>
      else \<lparr>info_names = [''s''], info_modified = [], usesArguments = False, usesThis = False\<rparr>)"

definition exampleResolve :: "string \<Rightarrow> lexenv \<Rightarrow> Reference option" where
  "exampleResolve n env =
     (if n = ''x'' then Some (Reference (DeclarativeEnvironmentRecord 0) (StringName ''x''))
      else if n = ''s'' then Some (Reference (DeclarativeEnvironmentRecord 0) (SymbolName 17))
      else if n = ''d'' then Some (Reference (DeclarativeEnvironmentRecord 1) (StringName ''d''))
      else None)"

definition exampleRealm :: Realm where
  "exampleRealm =
     \<lparr>heap = exampleHeap,
      intrinsics = map_of [(''ObjectPrototype'', 0), (''ArrayPrototype'', 2),
                           (''FunctionPrototype'', 3)],
      intrinsics_undefined = 4,
      envBindings = (\<lambda>r n. if r = 0 \<and> n = ''x''
                             then Some \<lparr>initialized = True, deletable = False,
                                        binding_value = Some 5\<rparr>
                             else if r = 1 \<and> n = ''d''
                             then Some \<lparr>initialized = True, deletable = True,
                                        binding_value = Some 5\<rparr>
                             else None),
      getGlobalLetBinding = (\<lambda>n. None),
      generator = Some [20],
      IsArray = (\<lambda>v. v = 6 \<or> v = 7),
      Get = (\<lambda>v k. if k = ''length'' then Some 5 else None),
      ResolveBinding = exampleResolve,
      traverse = exampleScan\<rparr>"

definition exampleModules :: "(string \<times> handle) list" where
  "exampleModules = [(''m'', 9)]"

section \<open>The methods keep what is recorded\<close>

lemma vb_le_refl [simp]: "vb_le b b" by (simp add: vb_le_def)

lemma vb_le_trans: "vb_le a b \<Longrightarrow> vb_le b c \<Longrightarrow> vb_le a c" by (simp add: vb_le_def)

lemma extends_refl [simp]: "extends X st st"
  by (simp add: extends_def values_grow_def bindings_grow_def tables_grow_def captures_kept_def)

lemma bindings_grow_trans: "bindings_grow a b \<Longrightarrow> bindings_grow b c \<Longrightarrow> bindings_grow a c"
  unfolding bindings_grow_def
proof (intro conjI allI impI)
  assume ab: "length (visitedBindings a) \<le> length (visitedBindings b) \<and>
    (\<forall>i<length (visitedBindings a). vb_le (visitedBindings a ! i) (visitedBindings b ! i))"
  and bc: "length (visitedBindings b) \<le> length (visitedBindings c) \<and>
    (\<forall>i<length (visitedBindings b). vb_le (visitedBindings b ! i) (visitedBindings c ! i))"
  show "length (visitedBindings a) \<le> length (visitedBindings c)" using ab bc by linarith
  fix i assume i: "i < length (visitedBindings a)"
  then have "i < length (visitedBindings b)" using ab by linarith
  then show "vb_le (visitedBindings a ! i) (visitedBindings c ! i)"
    using ab bc i vb_le_trans by blast
qed

lemma tables_grow_trans:
  assumes ab: "tables_grow a b" and bc: "tables_grow b c"
  shows "tables_grow a c"
  unfolding tables_grow_def
proof (intro conjI allI impI)
  show "globalBindings a \<subseteq>\<^sub>m globalBindings c"
    using ab bc unfolding tables_grow_def by (blast intro: map_le_trans)
  show "functionInfos a \<subseteq>\<^sub>m functionInfos c"
    using ab bc unfolding tables_grow_def by (blast intro: map_le_trans)
next
  fix r m assume "declarativeEnvironmentRecordsBindings a r = Some m"
  then obtain m' where m': "declarativeEnvironmentRecordsBindings b r = Some m'" "m \<subseteq>\<^sub>m m'"
    using ab unfolding tables_grow_def by blast
  then obtain m'' where "declarativeEnvironmentRecordsBindings c r = Some m''" "m' \<subseteq>\<^sub>m m''"
    using bc unfolding tables_grow_def by blast
  with m' show "\<exists>m'. declarativeEnvironmentRecordsBindings c r = Some m' \<and> m \<subseteq>\<^sub>m m'"
    by (blast intro: map_le_trans)
next
  fix v s assume "ignoredProperties a v = Some s"
  then obtain s' where s': "ignoredProperties b v = Some s'" "prefix s s'"
    using ab unfolding tables_grow_def by blast
  then obtain s'' where "ignoredProperties c v = Some s''" "prefix s' s''"
    using bc unfolding tables_grow_def by blast
  with s' show "\<exists>s'. ignoredProperties c v = Some s' \<and> prefix s s'"
    by (blast intro: prefix_order.order_trans)
qed

lemma values_grow_trans: "values_grow a b \<Longrightarrow> values_grow b c \<Longrightarrow> values_grow a c"
  unfolding values_grow_def by (blast intro: prefix_order.order_trans)

lemma captures_kept_trans:
  "values_grow a b \<Longrightarrow> captures_kept X a b \<Longrightarrow> captures_kept X b c \<Longrightarrow> captures_kept X a c"
  unfolding captures_kept_def values_grow_def
  by (auto dest!: set_mono_prefix)

lemma extends_trans: "extends X a b \<Longrightarrow> extends X b c \<Longrightarrow> extends X a c"
  unfolding extends_def
  by (blast intro: values_grow_trans bindings_grow_trans tables_grow_trans captures_kept_trans)

lemma extends_mono: "extends X a b \<Longrightarrow> X \<subseteq> Y \<Longrightarrow> extends Y a b"
  unfolding extends_def captures_kept_def by blast

lemma sound_returnM: "sound X (returnM x)"
  by (simp add: sound_def returnM_def)

lemma sound_skipM: "sound X skipM"
  by (simp add: skipM_def sound_returnM)

lemma sound_failM: "sound X (failM e)"
  by (simp add: sound_def failM_def)

lemma sound_readM: "sound X (readM g)"
  by (simp add: sound_def readM_def)

lemma soundD_Ok: "sound X m \<Longrightarrow> m st = Ok x st' \<Longrightarrow> extends X st st'"
  unfolding sound_def by (erule allE [of _ st]) simp

lemma soundD_Fatal: "sound X m \<Longrightarrow> m st = Fatal e st' \<Longrightarrow> extends X st st'"
  unfolding sound_def by (erule allE [of _ st]) simp

lemma soundI:
  "(\<And>st x st'. m st = Ok x st' \<Longrightarrow> extends X st st') \<Longrightarrow>
   (\<And>st e st'. m st = Fatal e st' \<Longrightarrow> extends X st st') \<Longrightarrow> sound X m"
  unfolding sound_def by (simp split: Outcome.split)

lemma sound_bindM:
  assumes m: "sound X m" and f: "\<And>x. sound X (f x)"
  shows "sound X (bindM m f)"
proof (rule soundI)
  fix st x st' assume "bindM m f st = Ok x st'"
  then obtain y s where "m st = Ok y s" "f y s = Ok x st'"
    by (auto simp: bindM_def split: Outcome.splits)
  then show "extends X st st'"
    using soundD_Ok [OF m] soundD_Ok [OF f] extends_trans by blast
next
  fix st e st' assume "bindM m f st = Fatal e st'"
  then consider "m st = Fatal e st'" | y s where "m st = Ok y s" "f y s = Fatal e st'"
    by (auto simp: bindM_def split: Outcome.splits)
  then show "extends X st st'"
    using soundD_Fatal [OF m] soundD_Ok [OF m] soundD_Fatal [OF f] extends_trans by cases blast+
qed

lemma sound_thenM: "sound X m \<Longrightarrow> sound X k \<Longrightarrow> sound X (thenM m k)"
  by (simp add: thenM_def sound_bindM)

lemma sound_modifyM: "(\<And>st. extends X st (g st)) \<Longrightarrow> sound X (modifyM g)"
  by (simp add: sound_def modifyM_def)

lemma sound_whenSome: "(\<And>y. sound X (f y)) \<Longrightarrow> sound X (whenSome x f)"
  by (cases x) (simp_all add: whenSome_def sound_skipM)

lemma sound_forEach: "(\<And>y. sound X (f y)) \<Longrightarrow> sound X (forEach f xs)"
  by (induction xs) (simp_all add: sound_skipM sound_thenM)

lemma sound_if: "(c \<Longrightarrow> sound X a) \<Longrightarrow> (\<not> c \<Longrightarrow> sound X b) \<Longrightarrow> sound X (if c then a else b)"
  by simp

lemma sound_mono: "sound X m \<Longrightarrow> X \<subseteq> Y \<Longrightarrow> sound Y m"
  by (rule soundI) (blast dest: soundD_Ok soundD_Fatal intro: extends_mono)+

lemma extends_logged:
  "extends X st (st\<lparr>logged := logged st @ l\<rparr>)"
  by (simp add: extends_def values_grow_def bindings_grow_def tables_grow_def captures_kept_def
      tables_ok_def)

lemma sound_logError: "sound X (logError val msg)"
  unfolding logError_def by (rule sound_modifyM) (rule extends_logged)

lemma extends_ignored:
  "extends X st (st\<lparr>ignoredProperties := (ignoredProperties st)
        (obj \<mapsto> Set_add key (case ignoredProperties st obj of None \<Rightarrow> [] | Some s \<Rightarrow> s))\<rparr>)"
  by (auto simp: extends_def values_grow_def bindings_grow_def tables_grow_def captures_kept_def
      tables_ok_def Set_add_def)

lemma sound_addIgnoredProperty: "sound X (addIgnoredProperty obj key)"
  unfolding addIgnoredProperty_def by (rule sound_modifyM) (rule extends_ignored)

lemma extends_addValue:
  "extends X st (st\<lparr>visitedValues := Set_add val (visitedValues st)\<rparr>)"
  by (auto simp: extends_def values_grow_def bindings_grow_def tables_grow_def captures_kept_def
      tables_ok_def Set_add_def)

lemma sound_addValue: "sound X (addValue val)"
  unfolding addValue_def by (rule sound_modifyM) (rule extends_addValue)

lemma nth_update_any:
  "j < length xs \<Longrightarrow> xs[i := x] ! j = (if i = j then x else xs ! j)"
  by (cases "i < length xs") (simp_all add: nth_list_update)

lemma extends_setModified:
  "extends X st (st\<lparr>visitedBindings :=
        (visitedBindings st)[a := (visitedBindings st ! a)\<lparr>modified := True\<rparr>]\<rparr>)"
  by (auto simp: extends_def values_grow_def bindings_grow_def tables_grow_def captures_kept_def
      tables_ok_def nth_update_any vb_le_def)

lemma sound_setModified: "sound X (setModified a)"
  unfolding setModified_def by (rule sound_modifyM) (rule extends_setModified)

lemma extends_functionInfo:
  "functionInfos st c = None \<Longrightarrow>
   extends X st (st\<lparr>functionInfos := (functionInfos st)(c \<mapsto> i), logged := logged st @ l\<rparr>)"
  by (auto simp: extends_def values_grow_def bindings_grow_def tables_grow_def captures_kept_def
      tables_ok_def map_le_def)

lemma sound_getFunctionInfo: "sound X (getFunctionInfo R val fp c residual)"
proof (rule soundI)
  fix st x st' assume "getFunctionInfo R val fp c residual st = Ok x st'"
  then show "extends X st st'"
    using extends_functionInfo [where st = st and c = c and X = X and i = "traverse R fp c"
        and l = "[]"]
      extends_functionInfo [where st = st and c = c and X = X and i = "traverse R fp c"
        and l = "[(val, ResidualFunctionFreeIdentifiers (info_names (traverse R fp c)))]"]
    by (auto simp: getFunctionInfo_def Let_def split: option.splits if_splits)
next
  fix st e st' assume "getFunctionInfo R val fp c residual st = Fatal e st'"
  then show "extends X st st'"
    by (auto simp: getFunctionInfo_def Let_def split: option.splits if_splits)
qed

lemma extends_newGlobal:
  "globalBindings st key = None \<Longrightarrow>
   extends X st (st\<lparr>visitedBindings := visitedBindings st @
                    [\<lparr>global = True, vb_value = v, modified = True,
                      declarativeEnvironmentRecord = None\<rparr>],
                  globalBindings := (globalBindings st)(key \<mapsto> length (visitedBindings st))\<rparr>)"
  by (auto simp: extends_def values_grow_def bindings_grow_def tables_grow_def captures_kept_def
      tables_ok_def map_le_def nth_append intro: less_SucI)

lemma sound_globalBinding: "sound X (globalBinding R key)"
  by (rule soundI) (auto simp: globalBinding_def Let_def extends_newGlobal split: option.splits)

lemma extends_ensureRecord:
  "declarativeEnvironmentRecordsBindings st r = None \<Longrightarrow>
   extends X st (st\<lparr>declarativeEnvironmentRecordsBindings :=
                      (declarativeEnvironmentRecordsBindings st)(r \<mapsto> Map.empty)\<rparr>)"
  by (auto simp: extends_def values_grow_def bindings_grow_def tables_grow_def captures_kept_def
      tables_ok_def map_le_def)

lemma extends_newDeclarative:
  "(case declarativeEnvironmentRecordsBindings st r of None \<Rightarrow> Map.empty | Some m \<Rightarrow> m) = vbs \<Longrightarrow>
   vbs n = None \<Longrightarrow>
   extends X st (st\<lparr>visitedBindings := visitedBindings st @
                      [\<lparr>global = False, vb_value = v, modified = False,
                        declarativeEnvironmentRecord = Some r\<rparr>],
                    declarativeEnvironmentRecordsBindings :=
                      (declarativeEnvironmentRecordsBindings st)
                         (r \<mapsto> vbs(n \<mapsto> length (visitedBindings st)))\<rparr>)"
  by (auto simp: extends_def values_grow_def bindings_grow_def tables_grow_def captures_kept_def
      tables_ok_def map_le_def nth_append intro: less_SucI split: option.splits if_splits)

lemma sound_declarativeBinding: "sound X (declarativeBinding R r n)"
proof (rule soundI)
  fix st x st' assume "declarativeBinding R r n st = Ok x st'"
  then show "extends X st st'"
    using extends_ensureRecord [of st r X] extends_newDeclarative [of st r _ n X]
    by (auto simp: declarativeBinding_def Let_def split: option.splits if_splits)
next
  fix st e st' assume "declarativeBinding R r n st = Fatal e st'"
  then show "extends X st st'"
    using extends_ensureRecord [of st r X]
    by (auto simp: declarativeBinding_def Let_def split: option.splits if_splits)
qed

lemma sound_case_option:
  "sound X a \<Longrightarrow> (\<And>y. sound X (b y)) \<Longrightarrow> sound X (case x of None \<Rightarrow> a | Some y \<Rightarrow> b y)"
  by (cases x) simp_all

lemma sound_case_list:
  "sound X a \<Longrightarrow> (\<And>y ys. sound X (b y ys)) \<Longrightarrow> sound X (case xs of [] \<Rightarrow> a | y # ys \<Rightarrow> b y ys)"
  by (cases xs) simp_all

lemma sound_case_Exotic:
  "sound X a \<Longrightarrow> (\<And>t h. sound X (b t h)) \<Longrightarrow> (\<And>f. sound X (c f)) \<Longrightarrow>
   sound X (case e of Ordinary \<Rightarrow> a | Proxy t h \<Rightarrow> b t h | Function f \<Rightarrow> c f)"
  by (cases e) simp_all

lemma sound_case_FunctionVariant:
  "(\<And>p c e r. sound X (a p c e r)) \<Longrightarrow> (\<And>t th as. sound X (b t th as)) \<Longrightarrow> sound X c \<Longrightarrow>
   sound X d \<Longrightarrow>
   sound X (case v of PlainFunction p c e r \<Rightarrow> a p c e r | BoundFunction t th as \<Rightarrow> b t th as
            | NativeFunction \<Rightarrow> c | OtherFunction \<Rightarrow> d)"
  by (cases v) simp_all

lemma sound_case_ReferencedName:
  "(\<And>n. sound X (a n)) \<Longrightarrow> (\<And>s. sound X (b s)) \<Longrightarrow>
   sound X (case v of StringName n \<Rightarrow> a n | SymbolName s \<Rightarrow> b s)"
  by (cases v) simp_all

lemma sound_case_ReferenceBase:
  "sound X a \<Longrightarrow> sound X b \<Longrightarrow> (\<And>r. sound X (c r)) \<Longrightarrow> sound X d \<Longrightarrow>
   sound X (case v of BaseUndefined \<Rightarrow> a | GlobalEnvironmentRecord \<Rightarrow> b
            | DeclarativeEnvironmentRecord r \<Rightarrow> c r | OtherBase \<Rightarrow> d)"
  by (cases v) simp_all

lemmas sound_intros =
  sound_returnM sound_skipM sound_failM sound_readM sound_bindM sound_thenM sound_whenSome
  sound_forEach sound_if sound_case_option sound_case_list sound_case_Exotic
  sound_case_FunctionVariant sound_case_ReferencedName sound_case_ReferenceBase
  sound_logError sound_addIgnoredProperty sound_addValue sound_setModified
  sound_getFunctionInfo sound_globalBinding sound_declarativeBinding

lemma sound_canIgnoreProperty: "sound X (canIgnoreProperty R val obj key desc)"
  unfolding canIgnoreProperty_def by (intro sound_intros)

lemma sound_visitDescriptor:
  "(\<And>v. sound X (visit v)) \<Longrightarrow> sound X (visitDescriptor visit desc)"
  unfolding visitDescriptor_def by (intro sound_intros)

lemma sound_visitProperty:
  "(\<And>v. sound X (visit v)) \<Longrightarrow> sound X (visitProperty visit R val obj entry)"
  unfolding visitProperty_def by (intro sound_intros sound_canIgnoreProperty sound_visitDescriptor)

lemma sound_visitObjectPrototype:
  "(\<And>v. sound X (visit v)) \<Longrightarrow> sound X (visitObjectPrototype visit R obj)"
  unfolding visitObjectPrototype_def by (intro sound_intros)

lemma sound_visitConstructorPrototype:
  "(\<And>v. sound X (visit v)) \<Longrightarrow> sound X (visitConstructorPrototype visit R func obj)"
  unfolding visitConstructorPrototype_def by (intro sound_intros)

lemma sound_visitUnknownProperty:
  "(\<And>a. sound X (chain a)) \<Longrightarrow> sound X (visitUnknownProperty chain R obj)"
  unfolding visitUnknownProperty_def by (intro sound_intros)

lemma sound_visitObjectProperties:
  "(\<And>v. sound X (visit v)) \<Longrightarrow> (\<And>a. sound X (chain a)) \<Longrightarrow>
   sound X (visitObjectProperties visit chain R val obj)"
  unfolding visitObjectProperties_def
  by (intro sound_intros sound_visitProperty sound_visitUnknownProperty
      sound_visitObjectPrototype sound_visitConstructorPrototype)

lemma sound_chain_body:
  "(\<And>v. sound X (visit v)) \<Longrightarrow> (\<And>a. sound X (chain a)) \<Longrightarrow>
   sound X (visitObjectPropertiesWithComputedNames_body visit chain R absVal)"
  unfolding visitObjectPropertiesWithComputedNames_body_def visitTemplate_def
    visitConditional_def
  by (intro sound_intros)

lemma sound_visitDeclarativeEnvironmentRecordBinding:
  "(\<And>v. sound X (visit v)) \<Longrightarrow> sound X (visitDeclarativeEnvironmentRecordBinding visit R r n)"
  unfolding visitDeclarativeEnvironmentRecordBinding_def by (intro sound_intros)

lemma sound_visitGlobalBinding:
  "(\<And>v. sound X (visit v)) \<Longrightarrow> sound X (visitGlobalBinding visit R key)"
  unfolding visitGlobalBinding_def by (intro sound_intros)

lemma sound_visitValueArray:
  "(\<And>v. sound X (visit v)) \<Longrightarrow> (\<And>a. sound X (chain a)) \<Longrightarrow>
   sound X (visitValueArray visit chain R val obj)"
  unfolding visitValueArray_def by (intro sound_intros sound_visitObjectProperties)

lemma sound_visitMapEntry:
  "(\<And>v. sound X (visit v)) \<Longrightarrow> sound X (visitMapEntry visit entry)"
  unfolding visitMapEntry_def by (intro sound_intros)

lemma sound_visitValueMap:
  "(\<And>v. sound X (visit v)) \<Longrightarrow> sound X (visitValueMap visit obj)"
  unfolding visitValueMap_def by (intro sound_intros sound_visitMapEntry)

lemma sound_visitValueSet:
  "(\<And>v. sound X (visit v)) \<Longrightarrow> sound X (visitValueSet visit obj)"
  unfolding visitValueSet_def by (intro sound_intros)

lemma sound_resolveCapture:
  "(\<And>v. sound X (visit v)) \<Longrightarrow> sound X (resolveCapture visit R env innerName)"
  unfolding resolveCapture_def
  by (intro sound_intros sound_visitGlobalBinding sound_visitDeclarativeEnvironmentRecordBinding)

lemma sound_visitCaptures:
  "(\<And>v. sound X (visit v)) \<Longrightarrow> sound X (visitCaptures visit R env info ns vbs)"
proof (induction ns arbitrary: vbs)
  case Nil
  show ?case by (simp add: sound_returnM)
next
  case (Cons n ns)
  show ?case
    unfolding visitCaptures.simps
    by (intro sound_intros sound_resolveCapture Cons)
qed

lemma extends_functionBindings:
  "val \<in> X \<Longrightarrow> extends X st (st\<lparr>functionBindings := (functionBindings st)(val \<mapsto> m)\<rparr>)"
  by (auto simp: extends_def values_grow_def bindings_grow_def tables_grow_def captures_kept_def
      tables_ok_def)

lemma sound_visitValueFunction:
  "(\<And>v. sound X (visit v)) \<Longrightarrow> (\<And>a. sound X (chain a)) \<Longrightarrow> val \<in> X \<Longrightarrow>
   sound X (visitValueFunction visit chain R val obj f)"
  unfolding visitValueFunction_def
  by (intro sound_intros sound_visitObjectProperties sound_visitCaptures sound_modifyM
      extends_functionBindings)

lemma sound_visitValueObject:
  "(\<And>v. sound X (visit v)) \<Longrightarrow> (\<And>a. sound X (chain a)) \<Longrightarrow>
   sound X (visitValueObject visit chain R val obj)"
  unfolding visitValueObject_def
  by (intro sound_intros sound_visitObjectProperties sound_visitValueMap sound_visitValueSet)

lemma sound_visitValueProxy:
  "(\<And>v. sound X (visit v)) \<Longrightarrow> sound X (visitValueProxy visit target handler)"
  unfolding visitValueProxy_def by (intro sound_intros)

lemma sound_visitAbstractValue:
  "(\<And>v. sound X (visit v)) \<Longrightarrow> sound X (visitAbstractValue visit val k as)"
  unfolding visitAbstractValue_def by (intro sound_intros)

lemma sound_dispatch:
  "(\<And>v. sound X (visit v)) \<Longrightarrow> (\<And>a. sound X (chain a)) \<Longrightarrow> val \<in> X \<Longrightarrow>
   sound X (dispatch visit chain R val)"
  unfolding dispatch_def
  by (intro sound_intros sound_visitAbstractValue sound_visitValueArray sound_visitValueProxy
      sound_visitValueFunction sound_visitValueObject)

lemma extends_enter:
  assumes nin: "val \<notin> set (visitedValues a)" and ab: "extends {} a b" and bc: "extends {val} b c"
  shows "extends {} a c"
proof -
  have sub: "set (visitedValues a) \<subseteq> set (visitedValues b)"
    using ab unfolding extends_def values_grow_def by (blast dest: set_mono_prefix)
  have "captures_kept {} a c"
    unfolding captures_kept_def
  proof
    fix f assume "f \<in> set (visitedValues a) - {}"
    then have fa: "f \<in> set (visitedValues a)" by simp
    with nin have "f \<noteq> val" by blast
    with fa sub have "f \<in> set (visitedValues b) - {val}" by blast
    then have "functionBindings c f = functionBindings b f"
      using bc unfolding extends_def captures_kept_def by blast
    moreover have "functionBindings b f = functionBindings a f"
      using ab fa unfolding extends_def captures_kept_def by blast
    ultimately show "functionBindings c f = functionBindings a f" by simp
  qed
  moreover have "extends {val} a c"
    using extends_mono [OF ab, of "{val}"] bc extends_trans by blast
  ultimately show ?thesis unfolding extends_def by blast
qed

lemma visitValue_Suc:
  "visitValue (Suc n) R =
     visitValue_body (visitValue n R) (visitObjectPropertiesWithComputedNames n R) R"
  by (intro ext) simp

lemma chain_Suc:
  "visitObjectPropertiesWithComputedNames (Suc n) R =
     visitObjectPropertiesWithComputedNames_body (visitValue n R)
       (visitObjectPropertiesWithComputedNames n R) R"
  by (intro ext) simp

lemma visitValue_body_run:
  "visitValue_body visit chain R val st =
     (if val \<in> set (visitedValues st) then Ok () st
      else dispatch visit chain R val (st\<lparr>visitedValues := visitedValues st @ [val]\<rparr>))"
  by (simp add: visitValue_body_def bindM_def readM_def skipM_def returnM_def thenM_def
      addValue_def modifyM_def Set_add_def)

lemma extends_append_value:
  "val \<notin> set (visitedValues st) \<Longrightarrow>
   extends X st (st\<lparr>visitedValues := visitedValues st @ [val]\<rparr>)"
  by (auto simp: extends_def values_grow_def bindings_grow_def tables_grow_def
      captures_kept_def tables_ok_def)

lemma sound_visitValue_body:
  assumes v: "\<And>v. sound {} (visit v)" and c: "\<And>a. sound {} (chain a)"
  shows "sound {} (visitValue_body visit chain R val)"
proof -
  have d: "sound {val} (dispatch visit chain R val)"
    by (rule sound_dispatch) (auto intro: sound_mono v c)
  show ?thesis
  proof (rule soundI)
    fix st x st' assume r: "visitValue_body visit chain R val st = Ok x st'"
    show "extends {} st st'"
    proof (cases "val \<in> set (visitedValues st)")
      case True
      with r show ?thesis by (simp add: visitValue_body_run)
    next
      case False
      with r have "dispatch visit chain R val (st\<lparr>visitedValues := visitedValues st @ [val]\<rparr>)
          = Ok x st'"
        by (simp add: visitValue_body_run)
      then show ?thesis
        using extends_enter [OF False extends_append_value [OF False]] soundD_Ok [OF d] by blast
    qed
  next
    fix st x st' assume r: "visitValue_body visit chain R val st = Fatal x st'"
    show "extends {} st st'"
    proof (cases "val \<in> set (visitedValues st)")
      case True
      with r show ?thesis by (simp add: visitValue_body_run)
    next
      case False
      with r have "dispatch visit chain R val (st\<lparr>visitedValues := visitedValues st @ [val]\<rparr>)
          = Fatal x st'"
        by (simp add: visitValue_body_run)
      then show ?thesis
        using extends_enter [OF False extends_append_value [OF False]] soundD_Fatal [OF d]
        by blast
    qed
  qed
qed

lemma sound_visitValue_chain:
  "(\<forall>v. sound {} (visitValue n R v)) \<and>
   (\<forall>a. sound {} (visitObjectPropertiesWithComputedNames n R a))"
proof (induction n)
  case 0
  show ?case by (simp add: sound_def)
next
  case (Suc n)
  then show ?case
    by (simp add: visitValue_Suc chain_Suc sound_visitValue_body sound_chain_body
        del: visitValue.simps visitObjectPropertiesWithComputedNames.simps)
qed

lemma sound_visitValue: "sound X (visitValue n R v)"
  using sound_visitValue_chain [of n R] sound_mono [of "{}" _ X] by blast

lemma sound_chain: "sound X (visitObjectPropertiesWithComputedNames n R a)"
  using sound_visitValue_chain [of n R] sound_mono [of "{}" _ X] by blast

lemma sound_visitRoots: "sound X (visitRoots n R mods)"
  unfolding visitRoots_def visitGenerator_def by (intro sound_intros sound_visitValue)

section \<open>Running the visitor\<close>

lemmas monad_defs = bindM_def thenM_def returnM_def skipM_def failM_def modifyM_def readM_def
  whenSome_def logError_def

lemmas example_defs = exampleRealm_def exampleHeap_def plainObject_def concrete_def intrinsic_def
  dataProperty_def functionObject_def exampleArray_def exampleOddArray_def exampleMap_def
  exampleClosure_def exampleSymbolClosure_def exampleDate_def exampleArguments_def
  exampleEvalClosure_def exampleWeakMap_def
  exampleScan_def exampleResolve_def exampleModules_def

lemmas visitor_defs = lookup_def isAbstract_def asObject_def asAbstract_def asProxy_def
  asFunction_def isLeaf_def isUndefinedValue_def isNumberZero_def constructedBy_def
  isDefaultConstructorProperty_def canIgnoreProperty_def getPropertyValue_def
  isDefaultPrototype_def visitDescriptor_def addIgnoredProperty_def visitProperty_def
  visitObjectPrototype_def visitConstructorPrototype_def visitUnknownProperty_def
  isFunctionValue_def visitObjectProperties_def visitTemplate_def visitConditional_def
  visitObjectPropertiesWithComputedNames_body_def setModified_def declarativeBinding_def
  visitDeclarativeEnvironmentRecordBinding_def globalBinding_def visitGlobalBinding_def
  visitValueArray_def visitMapEntry_def visitValueMap_def visitValueSet_def getFunctionInfo_def
  resolveCapture_def visitValueFunction_def visitor_ParameterMap_def typedArrayKinds_def
  visitValueObject_def visitValueProxy_def visitAbstractValue_def dispatch_def addValue_def
  visitValue_body_def visitGenerator_def visitRoots_def Set_add_def newVisitor_def

subsection \<open>Running the combinators\<close>

lemma thenM_skipM [simp]: "thenM m skipM = m"
  by (intro ext) (simp add: monad_defs split: Outcome.split)

lemma skipM_thenM [simp]: "thenM skipM k = k"
  by (intro ext) (simp add: monad_defs)

lemma thenM_assoc: "thenM (thenM a b) c = thenM a (thenM b c)"
  by (intro ext) (simp add: monad_defs split: Outcome.split)


lemma thenM_Ok:
  "thenM m k st = Ok x st' \<longleftrightarrow> (\<exists>s. m st = Ok () s \<and> k s = Ok x st')"
  by (auto simp: monad_defs split: Outcome.splits)


lemma bindM_assoc: "bindM (bindM m f) g = bindM m (\<lambda>x. bindM (f x) g)"
  by (intro ext) (simp add: bindM_def split: Outcome.split)

lemma bindM_thenM: "bindM (thenM m k) g = thenM m (bindM k g)"
  by (simp add: thenM_def bindM_assoc)

lemma bindM_returnM: "bindM (returnM x) f = f x"
  by (intro ext) (simp add: bindM_def returnM_def)

subsection \<open>A visited value is in the set\<close>

lemma extends_values_subset:
  "extends X st st' \<Longrightarrow> set (visitedValues st) \<subseteq> set (visitedValues st')"
  unfolding extends_def values_grow_def by (blast dest: set_mono_prefix)

lemma visitValue_Ok_visited:
  assumes "visitValue n R v st = Ok x st'"
  shows "v \<in> set (visitedValues st')"
proof (cases n)
  case 0
  with assms show ?thesis by simp
next
  case (Suc m)
  show ?thesis
  proof (cases "v \<in> set (visitedValues st)")
    case True
    with assms Suc show ?thesis by (simp add: visitValue_Suc visitValue_body_run)
  next
    case False
    with assms Suc have d: "dispatch (visitValue m R) (visitObjectPropertiesWithComputedNames m R)
        R v (st\<lparr>visitedValues := visitedValues st @ [v]\<rparr>) = Ok x st'"
      by (simp add: visitValue_Suc visitValue_body_run)
    have "sound {v} (dispatch (visitValue m R) (visitObjectPropertiesWithComputedNames m R) R v)"
      by (rule sound_dispatch) (simp_all add: sound_visitValue sound_chain)
    from soundD_Ok [OF this d] show ?thesis
      by (auto dest!: extends_values_subset)
  qed
qed



section \<open>More fuel changes nothing\<close>

lemma refines_refl: "refines m m"
  by (simp add: refines_def)

lemma refinesD: "refines m m' \<Longrightarrow> m st \<noteq> OutOfFuel \<Longrightarrow> m' st = m st"
  unfolding refines_def by (erule allE [of _ st]) simp

lemma refines_trans: "refines a b \<Longrightarrow> refines b c \<Longrightarrow> refines a c"
  unfolding refines_def by metis

lemma refines_bindM:
  assumes m: "refines m m'" and f: "\<And>x. refines (f x) (f' x)"
  shows "refines (bindM m f) (bindM m' f')"
  unfolding refines_def
proof
  fix st
  show "bindM m f st = OutOfFuel \<or> bindM m f st = bindM m' f' st"
  proof (cases "m st")
    case OutOfFuel
    then show ?thesis by (simp add: bindM_def)
  next
    case (Fatal e s)
    with refinesD [OF m, of st] show ?thesis by (simp add: bindM_def)
  next
    case (Ok x s)
    with refinesD [OF m, of st] have "m' st = Ok x s" by simp
    with Ok have "bindM m f st = f x s" "bindM m' f' st = f' x s"
      by (simp_all add: bindM_def)
    with refinesD [OF f, of x s] show ?thesis by (cases "f x s = OutOfFuel") simp_all
  qed
qed

lemma refines_thenM:
  "refines m m' \<Longrightarrow> refines k k' \<Longrightarrow> refines (thenM m k) (thenM m' k')"
  by (simp add: thenM_def refines_bindM)

lemma refines_whenSome:
  "(\<And>y. refines (f y) (f' y)) \<Longrightarrow> refines (whenSome x f) (whenSome x f')"
  by (cases x) (simp_all add: whenSome_def refines_refl)

lemma refines_forEach:
  "(\<And>y. refines (f y) (f' y)) \<Longrightarrow> refines (forEach f xs) (forEach f' xs)"
  by (induction xs) (simp_all add: refines_refl refines_thenM)

lemma refines_if:
  "(c \<Longrightarrow> refines a a') \<Longrightarrow> (\<not> c \<Longrightarrow> refines b b') \<Longrightarrow>
   refines (if c then a else b) (if c then a' else b')"
  by simp

lemma refines_case_option:
  "refines a a' \<Longrightarrow> (\<And>y. refines (b y) (b' y)) \<Longrightarrow>
   refines (case x of None \<Rightarrow> a | Some y \<Rightarrow> b y) (case x of None \<Rightarrow> a' | Some y \<Rightarrow> b' y)"
  by (cases x) simp_all

lemma refines_case_list:
  "refines a a' \<Longrightarrow> (\<And>y ys. refines (b y ys) (b' y ys)) \<Longrightarrow>
   refines (case xs of [] \<Rightarrow> a | y # ys \<Rightarrow> b y ys) (case xs of [] \<Rightarrow> a' | y # ys \<Rightarrow> b' y ys)"
  by (cases xs) simp_all

lemma refines_case_FunctionVariant:
  "(\<And>p c e r. refines (a p c e r) (a' p c e r)) \<Longrightarrow>
   (\<And>t th as. refines (b t th as) (b' t th as)) \<Longrightarrow> refines c c' \<Longrightarrow> refines d d' \<Longrightarrow>
   refines (case v of PlainFunction p c e r \<Rightarrow> a p c e r | BoundFunction t th as \<Rightarrow> b t th as
            | NativeFunction \<Rightarrow> c | OtherFunction \<Rightarrow> d)
           (case v of PlainFunction p c e r \<Rightarrow> a' p c e r | BoundFunction t th as \<Rightarrow> b' t th as
            | NativeFunction \<Rightarrow> c' | OtherFunction \<Rightarrow> d')"
  by (cases v) simp_all

lemma refines_case_ReferencedName:
  "(\<And>n. refines (a n) (a' n)) \<Longrightarrow> (\<And>s. refines (b s) (b' s)) \<Longrightarrow>
   refines (case v of StringName n \<Rightarrow> a n | SymbolName s \<Rightarrow> b s)
           (case v of StringName n \<Rightarrow> a' n | SymbolName s \<Rightarrow> b' s)"
  by (cases v) simp_all

lemma refines_case_ReferenceBase:
  "refines a a' \<Longrightarrow> refines b b' \<Longrightarrow> (\<And>r. refines (c r) (c' r)) \<Longrightarrow> refines d d' \<Longrightarrow>
   refines (case v of BaseUndefined \<Rightarrow> a | GlobalEnvironmentRecord \<Rightarrow> b
            | DeclarativeEnvironmentRecord r \<Rightarrow> c r | OtherBase \<Rightarrow> d)
           (case v of BaseUndefined \<Rightarrow> a' | GlobalEnvironmentRecord \<Rightarrow> b'
            | DeclarativeEnvironmentRecord r \<Rightarrow> c' r | OtherBase \<Rightarrow> d')"
  by (cases v) simp_all

lemmas refines_intros =
  refines_refl refines_bindM refines_thenM refines_whenSome refines_forEach refines_if
  refines_case_option refines_case_list refines_case_FunctionVariant
  refines_case_ReferencedName refines_case_ReferenceBase

lemma refines_visitDescriptor:
  "(\<And>v. refines (visit v) (visit' v)) \<Longrightarrow>
   refines (visitDescriptor visit desc) (visitDescriptor visit' desc)"
  unfolding visitDescriptor_def by (intro refines_intros)

lemma refines_visitProperty:
  "(\<And>v. refines (visit v) (visit' v)) \<Longrightarrow>
   refines (visitProperty visit R val obj entry) (visitProperty visit' R val obj entry)"
  unfolding visitProperty_def by (intro refines_intros refines_visitDescriptor)

lemma refines_visitObjectPrototype:
  "(\<And>v. refines (visit v) (visit' v)) \<Longrightarrow>
   refines (visitObjectPrototype visit R obj) (visitObjectPrototype visit' R obj)"
  unfolding visitObjectPrototype_def by (intro refines_intros)

lemma refines_visitConstructorPrototype:
  "(\<And>v. refines (visit v) (visit' v)) \<Longrightarrow>
   refines (visitConstructorPrototype visit R func obj) (visitConstructorPrototype visit' R func obj)"
  unfolding visitConstructorPrototype_def by (intro refines_intros)

lemma refines_visitUnknownProperty:
  "(\<And>a. refines (chain a) (chain' a)) \<Longrightarrow>
   refines (visitUnknownProperty chain R obj) (visitUnknownProperty chain' R obj)"
  unfolding visitUnknownProperty_def by (intro refines_intros)

lemma refines_visitObjectProperties:
  "(\<And>v. refines (visit v) (visit' v)) \<Longrightarrow> (\<And>a. refines (chain a) (chain' a)) \<Longrightarrow>
   refines (visitObjectProperties visit chain R val obj)
           (visitObjectProperties visit' chain' R val obj)"
  unfolding visitObjectProperties_def
  by (intro refines_intros refines_visitProperty refines_visitUnknownProperty
      refines_visitObjectPrototype refines_visitConstructorPrototype)

lemma refines_chain_body:
  "(\<And>v. refines (visit v) (visit' v)) \<Longrightarrow> (\<And>a. refines (chain a) (chain' a)) \<Longrightarrow>
   refines (visitObjectPropertiesWithComputedNames_body visit chain R absVal)
           (visitObjectPropertiesWithComputedNames_body visit' chain' R absVal)"
  unfolding visitObjectPropertiesWithComputedNames_body_def visitTemplate_def
    visitConditional_def
  by (intro refines_intros)

lemma refines_visitDeclarativeEnvironmentRecordBinding:
  "(\<And>v. refines (visit v) (visit' v)) \<Longrightarrow>
   refines (visitDeclarativeEnvironmentRecordBinding visit R r n)
           (visitDeclarativeEnvironmentRecordBinding visit' R r n)"
  unfolding visitDeclarativeEnvironmentRecordBinding_def by (intro refines_intros)

lemma refines_visitGlobalBinding:
  "(\<And>v. refines (visit v) (visit' v)) \<Longrightarrow>
   refines (visitGlobalBinding visit R key) (visitGlobalBinding visit' R key)"
  unfolding visitGlobalBinding_def by (intro refines_intros)

lemma refines_visitValueArray:
  "(\<And>v. refines (visit v) (visit' v)) \<Longrightarrow> (\<And>a. refines (chain a) (chain' a)) \<Longrightarrow>
   refines (visitValueArray visit chain R val obj) (visitValueArray visit' chain' R val obj)"
  unfolding visitValueArray_def by (intro refines_intros refines_visitObjectProperties)

lemma refines_visitMapEntry:
  "(\<And>v. refines (visit v) (visit' v)) \<Longrightarrow>
   refines (visitMapEntry visit entry) (visitMapEntry visit' entry)"
  unfolding visitMapEntry_def by (intro refines_intros)

lemma refines_visitValueMap:
  "(\<And>v. refines (visit v) (visit' v)) \<Longrightarrow>
   refines (visitValueMap visit obj) (visitValueMap visit' obj)"
  unfolding visitValueMap_def by (intro refines_intros refines_visitMapEntry)

lemma refines_visitValueSet:
  "(\<And>v. refines (visit v) (visit' v)) \<Longrightarrow>
   refines (visitValueSet visit obj) (visitValueSet visit' obj)"
  unfolding visitValueSet_def by (intro refines_intros)

lemma refines_resolveCapture:
  "(\<And>v. refines (visit v) (visit' v)) \<Longrightarrow>
   refines (resolveCapture visit R env innerName) (resolveCapture visit' R env innerName)"
  unfolding resolveCapture_def
  by (intro refines_intros refines_visitGlobalBinding
      refines_visitDeclarativeEnvironmentRecordBinding)

lemma refines_visitCaptures:
  "(\<And>v. refines (visit v) (visit' v)) \<Longrightarrow>
   refines (visitCaptures visit R env info ns vbs) (visitCaptures visit' R env info ns vbs)"
proof (induction ns arbitrary: vbs)
  case Nil
  show ?case by (simp add: refines_refl)
next
  case (Cons n ns)
  show ?case
    unfolding visitCaptures.simps
    by (intro refines_intros refines_resolveCapture Cons)
qed

lemma refines_visitValueFunction:
  "(\<And>v. refines (visit v) (visit' v)) \<Longrightarrow> (\<And>a. refines (chain a) (chain' a)) \<Longrightarrow>
   refines (visitValueFunction visit chain R val obj f) (visitValueFunction visit' chain' R val obj f)"
  unfolding visitValueFunction_def
  by (intro refines_intros refines_visitObjectProperties refines_visitCaptures)

lemma refines_visitValueObject:
  "(\<And>v. refines (visit v) (visit' v)) \<Longrightarrow> (\<And>a. refines (chain a) (chain' a)) \<Longrightarrow>
   refines (visitValueObject visit chain R val obj) (visitValueObject visit' chain' R val obj)"
  unfolding visitValueObject_def
  by (intro refines_intros refines_visitObjectProperties refines_visitValueMap
      refines_visitValueSet)

lemma refines_visitValueProxy:
  "(\<And>v. refines (visit v) (visit' v)) \<Longrightarrow>
   refines (visitValueProxy visit target handler) (visitValueProxy visit' target handler)"
  unfolding visitValueProxy_def by (intro refines_intros)

lemma refines_visitAbstractValue:
  "(\<And>v. refines (visit v) (visit' v)) \<Longrightarrow>
   refines (visitAbstractValue visit val k as) (visitAbstractValue visit' val k as)"
  unfolding visitAbstractValue_def by (intro refines_intros)

lemma refines_dispatch:
  "(\<And>v. refines (visit v) (visit' v)) \<Longrightarrow> (\<And>a. refines (chain a) (chain' a)) \<Longrightarrow>
   refines (dispatch visit chain R val) (dispatch visit' chain' R val)"
  unfolding dispatch_def
  by (intro refines_intros refines_visitAbstractValue refines_visitValueArray
      refines_visitValueProxy refines_visitValueFunction refines_visitValueObject)

lemma refines_visitValue_body:
  "(\<And>v. refines (visit v) (visit' v)) \<Longrightarrow> (\<And>a. refines (chain a) (chain' a)) \<Longrightarrow>
   refines (visitValue_body visit chain R val) (visitValue_body visit' chain' R val)"
  unfolding visitValue_body_def by (intro refines_intros refines_dispatch)

lemma refines_Suc:
  "(\<forall>v. refines (visitValue n R v) (visitValue (Suc n) R v)) \<and>
   (\<forall>a. refines (visitObjectPropertiesWithComputedNames n R a)
                 (visitObjectPropertiesWithComputedNames (Suc n) R a))"
proof (induction n)
  case 0
  show ?case by (simp add: refines_def)
next
  case (Suc n)
  then have v: "\<And>v. refines (visitValue n R v) (visitValue (Suc n) R v)"
    and c: "\<And>a. refines (visitObjectPropertiesWithComputedNames n R a)
                 (visitObjectPropertiesWithComputedNames (Suc n) R a)"
    by blast+
  have "refines (visitValue_body (visitValue n R) (visitObjectPropertiesWithComputedNames n R) R w)
     (visitValue_body (visitValue (Suc n) R) (visitObjectPropertiesWithComputedNames (Suc n) R) R w)"
    for w
    by (rule refines_visitValue_body) (rule v c)+
  moreover have "refines (visitObjectPropertiesWithComputedNames_body (visitValue n R)
        (visitObjectPropertiesWithComputedNames n R) R w)
     (visitObjectPropertiesWithComputedNames_body (visitValue (Suc n) R)
        (visitObjectPropertiesWithComputedNames (Suc n) R) R w)"
    for w
    by (rule refines_chain_body) (rule v c)+
  ultimately show ?case
    by (simp add: visitValue_Suc chain_Suc
        del: visitValue.simps visitObjectPropertiesWithComputedNames.simps)
qed

lemma refines_more_fuel:
  "refines (visitValue n R v) (visitValue (n + k) R v)"
proof (induction k)
  case 0
  show ?case by (simp add: refines_refl)
next
  case (Suc k)
  from refines_Suc [of "n + k" R]
  have step: "refines (visitValue (n + k) R v) (visitValue (Suc (n + k)) R v)"
    by blast
  have "refines (visitValue n R v) (visitValue (Suc (n + k)) R v)"
    by (rule refines_trans [OF Suc step])
  then show ?case by (simp only: add_Suc_right)
qed

lemma refines_visitRoots:
  "refines (visitRoots n R mods) (visitRoots (n + k) R mods)"
  unfolding visitRoots_def visitGenerator_def
  by (intro refines_intros refines_more_fuel)

subsection \<open>Termination: enough fuel always returns\<close>

text \<open>
  Every visit of an unvisited value first adds it to the visited set, so the depth of nested
  visits is bounded by the number of heap values not yet visited.  The walker over computed
  property names recurses into the operands of an abstract value without marking anything;
  it ends when the operands of every abstract value were allocated before the value itself
  (\<open>abstract_operands_earlier\<close>).
\<close>

lemma unvisited_mono:
  "set (visitedValues st) \<subseteq> set (visitedValues st') \<Longrightarrow> unvisited R st' \<le> unvisited R st"
  unfolding unvisited_def by (intro card_mono) auto

lemma haltsI:
  "(\<And>st. unvisited R st \<le> k \<Longrightarrow> m st \<noteq> OutOfFuel) \<Longrightarrow>
   (\<And>st e st'. m st = Fatal e st' \<Longrightarrow> unvisited R st' \<le> unvisited R st) \<Longrightarrow>
   (\<And>st x st'. m st = Ok x st' \<Longrightarrow> unvisited R st' \<le> unvisited R st) \<Longrightarrow> halts R k m"
  unfolding halts_def by (auto split: Outcome.split)

lemma haltsD:
  "halts R k m \<Longrightarrow> unvisited R st \<le> k \<Longrightarrow>
   m st \<noteq> OutOfFuel \<and> (\<forall>e st'. m st = Fatal e st' \<longrightarrow> unvisited R st' \<le> unvisited R st)
   \<and> (\<forall>x st'. m st = Ok x st' \<longrightarrow> unvisited R st' \<le> unvisited R st)"
  unfolding halts_def by (erule allE [of _ st]) (auto split: Outcome.splits)

lemma halts_returnM: "halts R k (returnM x)"
  by (simp add: halts_def returnM_def)

lemma halts_skipM: "halts R k skipM"
  by (simp add: skipM_def halts_returnM)

lemma halts_failM: "halts R k (failM e)"
  by (simp add: halts_def failM_def)

lemma halts_readM: "halts R k (readM g)"
  by (simp add: halts_def readM_def)

lemma halts_modifyM:
  "(\<And>st. set (visitedValues st) \<subseteq> set (visitedValues (g st))) \<Longrightarrow> halts R k (modifyM g)"
  by (simp add: halts_def modifyM_def unvisited_mono)

lemma halts_bindM:
  assumes m: "halts R k m" and f: "\<And>x. halts R k (f x)"
  shows "halts R k (bindM m f)"
  unfolding halts_def
proof (intro allI impI)
  fix st assume u: "unvisited R st \<le> k"
  note M = haltsD [OF m u]
  show "case bindM m f st of OutOfFuel \<Rightarrow> False
        | Fatal e st' \<Rightarrow> unvisited R st' \<le> unvisited R st
        | Ok x st' \<Rightarrow> unvisited R st' \<le> unvisited R st"
  proof (cases "m st")
    case OutOfFuel
    with M show ?thesis by simp
  next
    case (Fatal e s)
    with M show ?thesis by (simp add: bindM_def)
  next
    case (Ok x s)
    with M have s: "unvisited R s \<le> unvisited R st" by simp
    with u have "unvisited R s \<le> k" by simp
    note F = haltsD [OF f [of x] this]
    from Ok have b: "bindM m f st = f x s" by (simp add: bindM_def)
    show ?thesis
      unfolding b using F s by (cases "f x s") auto
  qed
qed

lemma halts_thenM: "halts R k m \<Longrightarrow> halts R k n \<Longrightarrow> halts R k (thenM m n)"
  by (simp add: thenM_def halts_bindM)

lemma halts_whenSome: "(\<And>y. halts R k (f y)) \<Longrightarrow> halts R k (whenSome x f)"
  by (cases x) (simp_all add: whenSome_def halts_skipM)

lemma halts_forEach: "(\<And>y. halts R k (f y)) \<Longrightarrow> halts R k (forEach f xs)"
  by (induction xs) (simp_all add: halts_skipM halts_thenM)

lemma halts_if: "(c \<Longrightarrow> halts R k a) \<Longrightarrow> (\<not> c \<Longrightarrow> halts R k b) \<Longrightarrow> halts R k (if c then a else b)"
  by simp

lemma halts_case_option:
  "(x = None \<Longrightarrow> halts R k a) \<Longrightarrow> (\<And>y. x = Some y \<Longrightarrow> halts R k (b y)) \<Longrightarrow>
   halts R k (case x of None \<Rightarrow> a | Some y \<Rightarrow> b y)"
  by (cases x) simp_all

lemma halts_case_list:
  "halts R k a \<Longrightarrow> (\<And>y ys. halts R k (b y ys)) \<Longrightarrow>
   halts R k (case xs of [] \<Rightarrow> a | y # ys \<Rightarrow> b y ys)"
  by (cases xs) simp_all

lemma halts_case_FunctionVariant:
  "(\<And>p c e r. halts R k (a p c e r)) \<Longrightarrow> (\<And>t th as. halts R k (b t th as)) \<Longrightarrow> halts R k c \<Longrightarrow>
   halts R k d \<Longrightarrow>
   halts R k (case v of PlainFunction p c e r \<Rightarrow> a p c e r | BoundFunction t th as \<Rightarrow> b t th as
            | NativeFunction \<Rightarrow> c | OtherFunction \<Rightarrow> d)"
  by (cases v) simp_all

lemma halts_case_ReferencedName:
  "(\<And>n. halts R k (a n)) \<Longrightarrow> (\<And>s. halts R k (b s)) \<Longrightarrow>
   halts R k (case v of StringName n \<Rightarrow> a n | SymbolName s \<Rightarrow> b s)"
  by (cases v) simp_all

lemma halts_case_ReferenceBase:
  "halts R k a \<Longrightarrow> halts R k b \<Longrightarrow> (\<And>r. halts R k (c r)) \<Longrightarrow> halts R k d \<Longrightarrow>
   halts R k (case v of BaseUndefined \<Rightarrow> a | GlobalEnvironmentRecord \<Rightarrow> b
            | DeclarativeEnvironmentRecord r \<Rightarrow> c r | OtherBase \<Rightarrow> d)"
  by (cases v) simp_all

lemma halts_case_Exotic:
  "halts R k a \<Longrightarrow> (\<And>t h. halts R k (b t h)) \<Longrightarrow> (\<And>f. halts R k (c f)) \<Longrightarrow>
   halts R k (case e of Ordinary \<Rightarrow> a | Proxy t h \<Rightarrow> b t h | Function f \<Rightarrow> c f)"
  by (cases e) simp_all

lemma halts_logError: "halts R k (logError val msg)"
  unfolding logError_def by (rule halts_modifyM) simp

lemma halts_addIgnoredProperty: "halts R k (addIgnoredProperty obj key)"
  unfolding addIgnoredProperty_def by (rule halts_modifyM) simp

lemma halts_addValue: "halts R k (addValue val)"
  unfolding addValue_def by (rule halts_modifyM) (auto simp: Set_add_def)

lemma halts_setModified: "halts R k (setModified a)"
  unfolding setModified_def by (rule halts_modifyM) simp

lemma halts_getFunctionInfo: "halts R k (getFunctionInfo R val fp c residual)"
  by (rule haltsI)
     (auto simp: getFunctionInfo_def Let_def unvisited_def split: option.splits if_splits)

lemma halts_globalBinding: "halts R k (globalBinding R key)"
  by (rule haltsI) (auto simp: globalBinding_def Let_def unvisited_def split: option.splits)

lemma halts_declarativeBinding: "halts R k (declarativeBinding R r n)"
  by (rule haltsI)
     (auto simp: declarativeBinding_def Let_def unvisited_def split: option.splits if_splits)

lemmas halts_intros =
  halts_returnM halts_skipM halts_failM halts_readM halts_bindM halts_thenM halts_whenSome
  halts_forEach halts_if halts_case_option halts_case_list
  halts_case_FunctionVariant halts_case_ReferencedName halts_case_ReferenceBase
  halts_case_Exotic
  halts_logError halts_addIgnoredProperty halts_addValue halts_setModified
  halts_getFunctionInfo halts_globalBinding halts_declarativeBinding

lemma halts_canIgnoreProperty: "halts R k (canIgnoreProperty R val obj key desc)"
  unfolding canIgnoreProperty_def by (intro halts_intros)

lemma halts_visitDescriptor:
  "(\<And>v. halts R k (visit v)) \<Longrightarrow> halts R k (visitDescriptor visit desc)"
  unfolding visitDescriptor_def by (intro halts_intros)

lemma halts_visitProperty:
  "(\<And>v. halts R k (visit v)) \<Longrightarrow> halts R k (visitProperty visit R val obj entry)"
  unfolding visitProperty_def by (intro halts_intros halts_canIgnoreProperty halts_visitDescriptor)

lemma halts_visitObjectPrototype:
  "(\<And>v. halts R k (visit v)) \<Longrightarrow> halts R k (visitObjectPrototype visit R obj)"
  unfolding visitObjectPrototype_def by (intro halts_intros)

lemma halts_visitConstructorPrototype:
  "(\<And>v. halts R k (visit v)) \<Longrightarrow> halts R k (visitConstructorPrototype visit R func obj)"
  unfolding visitConstructorPrototype_def by (intro halts_intros)

lemma halts_visitUnknownProperty:
  "(\<And>a. halts R k (chain a)) \<Longrightarrow> halts R k (visitUnknownProperty chain R obj)"
  unfolding visitUnknownProperty_def by (intro halts_intros)

lemma halts_visitObjectProperties:
  "(\<And>v. halts R k (visit v)) \<Longrightarrow> (\<And>a. halts R k (chain a)) \<Longrightarrow>
   halts R k (visitObjectProperties visit chain R val obj)"
  unfolding visitObjectProperties_def
  by (intro halts_intros halts_visitProperty halts_visitUnknownProperty
      halts_visitObjectPrototype halts_visitConstructorPrototype)

lemma halts_visitDeclarativeEnvironmentRecordBinding:
  "(\<And>v. halts R k (visit v)) \<Longrightarrow> halts R k (visitDeclarativeEnvironmentRecordBinding visit R r n)"
  unfolding visitDeclarativeEnvironmentRecordBinding_def by (intro halts_intros)

lemma halts_visitGlobalBinding:
  "(\<And>v. halts R k (visit v)) \<Longrightarrow> halts R k (visitGlobalBinding visit R key)"
  unfolding visitGlobalBinding_def by (intro halts_intros)

lemma halts_visitValueArray:
  "(\<And>v. halts R k (visit v)) \<Longrightarrow> (\<And>a. halts R k (chain a)) \<Longrightarrow>
   halts R k (visitValueArray visit chain R val obj)"
  unfolding visitValueArray_def by (intro halts_intros halts_visitObjectProperties)

lemma halts_visitMapEntry:
  "(\<And>v. halts R k (visit v)) \<Longrightarrow> halts R k (visitMapEntry visit entry)"
  unfolding visitMapEntry_def by (intro halts_intros)

lemma halts_visitValueMap:
  "(\<And>v. halts R k (visit v)) \<Longrightarrow> halts R k (visitValueMap visit obj)"
  unfolding visitValueMap_def by (intro halts_intros halts_visitMapEntry)

lemma halts_visitValueSet:
  "(\<And>v. halts R k (visit v)) \<Longrightarrow> halts R k (visitValueSet visit obj)"
  unfolding visitValueSet_def by (intro halts_intros)

lemma halts_resolveCapture:
  "(\<And>v. halts R k (visit v)) \<Longrightarrow> halts R k (resolveCapture visit R env innerName)"
  unfolding resolveCapture_def
  by (intro halts_intros halts_visitGlobalBinding halts_visitDeclarativeEnvironmentRecordBinding)

lemma halts_visitCaptures:
  "(\<And>v. halts R k (visit v)) \<Longrightarrow> halts R k (visitCaptures visit R env info ns vbs)"
proof (induction ns arbitrary: vbs)
  case Nil
  show ?case by (simp add: halts_returnM)
next
  case (Cons n ns)
  show ?case
    unfolding visitCaptures.simps
    by (intro halts_intros halts_resolveCapture Cons)
qed

lemma halts_recordCaptures:
  "halts R k (modifyM (\<lambda>st. st\<lparr>functionBindings := (functionBindings st)(val \<mapsto> m)\<rparr>))"
  by (rule halts_modifyM) simp

lemma halts_visitValueFunction:
  "(\<And>v. halts R k (visit v)) \<Longrightarrow> (\<And>a. halts R k (chain a)) \<Longrightarrow>
   halts R k (visitValueFunction visit chain R val obj f)"
  unfolding visitValueFunction_def
  by (intro halts_intros halts_visitObjectProperties halts_visitCaptures halts_recordCaptures)

lemma halts_visitValueObject:
  "(\<And>v. halts R k (visit v)) \<Longrightarrow> (\<And>a. halts R k (chain a)) \<Longrightarrow>
   halts R k (visitValueObject visit chain R val obj)"
  unfolding visitValueObject_def
  by (intro halts_intros halts_visitObjectProperties halts_visitValueMap halts_visitValueSet)

lemma halts_visitValueProxy:
  "(\<And>v. halts R k (visit v)) \<Longrightarrow> halts R k (visitValueProxy visit target handler)"
  unfolding visitValueProxy_def by (intro halts_intros)

lemma halts_visitAbstractValue:
  "(\<And>v. halts R k (visit v)) \<Longrightarrow> halts R k (visitAbstractValue visit val k' as)"
  unfolding visitAbstractValue_def by (intro halts_intros)

lemma halts_dispatch:
  "(\<And>v. halts R k (visit v)) \<Longrightarrow> (\<And>a. halts R k (chain a)) \<Longrightarrow>
   halts R k (dispatch visit chain R val)"
  unfolding dispatch_def
  by (intro halts_intros halts_visitAbstractValue halts_visitValueArray halts_visitValueProxy
      halts_visitValueFunction halts_visitValueObject)

text \<open>The chain of computed names calls itself on operands only.\<close>

lemma halts_chain_body:
  assumes v: "\<And>v. halts R k (visit v)"
    and c: "\<And>a. a \<in> set (operands R absVal) \<Longrightarrow> halts R k (chain a)"
  shows "halts R k (visitObjectPropertiesWithComputedNames_body visit chain R absVal)"
proof (cases "asAbstract R absVal")
  case None
  then show ?thesis
    by (simp add: visitObjectPropertiesWithComputedNames_body_def halts_failM)
next
  case (Some absVal')
  then have ops: "operands R absVal = snd absVal'" by (simp add: operands_def)
  show ?thesis
  proof (cases "length (snd absVal') = 3")
    case False
    with Some show ?thesis
      by (simp add: visitObjectPropertiesWithComputedNames_body_def halts_failM)
  next
    case True
    then have "snd absVal' ! 1 \<in> set (snd absVal')" "snd absVal' ! 2 \<in> set (snd absVal')"
      by simp_all
    with c ops have c1: "halts R k (chain (snd absVal' ! 1))"
      and c2: "halts R k (chain (snd absVal' ! 2))"
      by simp_all
    have t: "halts R k (visitTemplate visit chain R cargs (snd absVal'))" for cargs
      unfolding visitTemplate_def by (intro halts_intros v c2)
    have n: "halts R k (visitConditional visit chain R (snd absVal'))"
      unfolding visitConditional_def by (intro halts_intros v c1 c2)
    show ?thesis
      using Some True
      by (simp add: visitObjectPropertiesWithComputedNames_body_def halts_failM t n
          split: option.split)
  qed
qed

lemma dispatch_dangling:
  "\<not> val < length (heap R) \<Longrightarrow> dispatch visit chain R val = failM InvariantViolation"
  by (simp add: dispatch_def lookup_def asAbstract_def isLeaf_def asObject_def asProxy_def
      asFunction_def)

lemma operands_dangling: "\<not> val < length (heap R) \<Longrightarrow> operands R val = []"
  by (simp add: operands_def asAbstract_def lookup_def)

lemma unvisited_enter:
  assumes "val < length (heap R)" and "val \<notin> set (visitedValues st)"
  shows "Suc (unvisited R (st\<lparr>visitedValues := visitedValues st @ [val]\<rparr>)) = unvisited R st"
proof -
  let ?A = "{..<length (heap R)} - set (visitedValues st)"
  have fin: "finite ?A" by simp
  have mem: "val \<in> ?A" using assms by simp
  have "{..<length (heap R)} - set (visitedValues st @ [val]) = ?A - {val}" by auto
  then have "unvisited R (st\<lparr>visitedValues := visitedValues st @ [val]\<rparr>) = card (?A - {val})"
    by (simp add: unvisited_def)
  with card_Suc_Diff1 [OF fin mem] show ?thesis by (simp add: unvisited_def)
qed

lemma halts_visitValue_body:
  assumes v: "\<And>v. halts R k (visit v)" and c: "\<And>a. halts R k (chain a)"
  shows "halts R (Suc k) (visitValue_body visit chain R val)"
proof -
  have d: "halts R k (dispatch visit chain R val)"
    by (rule halts_dispatch) (rule v c)+
  have main: "unvisited R st \<le> j \<Longrightarrow> j \<le> Suc k \<Longrightarrow>
      (case visitValue_body visit chain R val st of OutOfFuel \<Rightarrow> False
         | Fatal e st' \<Rightarrow> unvisited R st' \<le> unvisited R st
         | Ok x st' \<Rightarrow> unvisited R st' \<le> unvisited R st)" for st j
  proof -
    assume u: "unvisited R st \<le> j" and j: "j \<le> Suc k"
    let ?st = "st\<lparr>visitedValues := visitedValues st @ [val]\<rparr>"
    show ?thesis
    proof (cases "val \<in> set (visitedValues st)")
      case True
      then show ?thesis by (simp add: visitValue_body_run)
    next
      case False
      note new = this
      show ?thesis
      proof (cases "val < length (heap R)")
        case False
        have "unvisited R ?st \<le> unvisited R st" by (rule unvisited_mono) auto
        with new False show ?thesis
          by (simp add: visitValue_body_run dispatch_dangling failM_def)
      next
        case True
        from unvisited_enter [OF True new] have s: "Suc (unvisited R ?st) = unvisited R st" .
        with u j have "unvisited R ?st \<le> k" by simp
        from haltsD [OF d this] s new show ?thesis
          by (cases "dispatch visit chain R val ?st") (auto simp: visitValue_body_run)
      qed
    qed
  qed
  show "halts R (Suc k) (visitValue_body visit chain R val)"
    unfolding halts_def using main [of _ "Suc k"] by blast
qed

lemma halts_visitValue_body_0: "halts R 0 (visitValue_body visit chain R val)"
  unfolding halts_def
proof (intro allI impI)
  fix st assume u: "unvisited R st \<le> 0"
  let ?st = "st\<lparr>visitedValues := visitedValues st @ [val]\<rparr>"
  show "case visitValue_body visit chain R val st of OutOfFuel \<Rightarrow> False
         | Fatal e st' \<Rightarrow> unvisited R st' \<le> unvisited R st
         | Ok x st' \<Rightarrow> unvisited R st' \<le> unvisited R st"
  proof (cases "val \<in> set (visitedValues st)")
    case True
    then show ?thesis by (simp add: visitValue_body_run)
  next
    case False
    have "\<not> val < length (heap R)"
      using unvisited_enter [OF _ False, of R] u by auto
    moreover have "unvisited R ?st \<le> unvisited R st" by (rule unvisited_mono) auto
    ultimately show ?thesis
      using False by (simp add: visitValue_body_run dispatch_dangling failM_def)
  qed
qed

lemma operand_earlier:
  "abstract_operands_earlier R \<Longrightarrow> a \<in> set (operands R val) \<Longrightarrow> a < val"
proof -
  assume wf: "abstract_operands_earlier R" and a: "a \<in> set (operands R val)"
  then have "val < length (heap R)" using operands_dangling [of val R] by (cases "val < length (heap R)") auto
  with wf a show "a < val"
    by (auto simp: abstract_operands_earlier_def list_all_iff)
qed

lemma fuelFor_Suc: "fuelFor R (Suc k) = fuelFor R k + length (heap R) + 1"
  by (simp add: fuelFor_def)

lemma fuelFor_pos: "1 \<le> fuelFor R k"
  by (simp add: fuelFor_def)

lemma halts_visitValue_chain:
  assumes wf: "abstract_operands_earlier R"
  shows "(\<forall>k v. fuelFor R k \<le> n \<longrightarrow> halts R k (visitValue n R v))
    \<and> (\<forall>k a. (if a < length (heap R) then Suc a else 0) + fuelFor R k \<le> n \<longrightarrow>
           halts R k (visitObjectPropertiesWithComputedNames n R a))"
proof (induction n)
  case 0
  show ?case by (simp add: fuelFor_def)
next
  case (Suc n)
  note IHv = Suc [THEN conjunct1, rule_format]
  note IHc = Suc [THEN conjunct2, rule_format]
  have v: "halts R k (visitValue (Suc n) R v)" if f: "fuelFor R k \<le> Suc n" for k v
  proof (cases k)
    case 0
    then show ?thesis by (simp only: visitValue_Suc halts_visitValue_body_0)
  next
    case (Suc k')
    with f have le: "fuelFor R k' + length (heap R) \<le> n" by (simp add: fuelFor_Suc)
    have 1: "halts R k' (visitValue n R w)" for w
      by (rule IHv) (use le in simp)
    have 2: "halts R k' (visitObjectPropertiesWithComputedNames n R a)" for a
      by (rule IHc) (use le in auto)
    show ?thesis
      unfolding Suc visitValue_Suc by (rule halts_visitValue_body) (rule 1 2)+
  qed
  have c: "halts R k (visitObjectPropertiesWithComputedNames (Suc n) R a)"
    if f: "(if a < length (heap R) then Suc a else 0) + fuelFor R k \<le> Suc n" for k a
  proof (cases "a < length (heap R)")
    case False
    then have "asAbstract R a = None" by (simp add: asAbstract_def lookup_def)
    then show ?thesis
      by (simp only: chain_Suc)
         (simp add: visitObjectPropertiesWithComputedNames_body_def halts_failM)
  next
    case True
    with f have le: "a + fuelFor R k \<le> n" by simp
    have 1: "halts R k (visitValue n R w)" for w
      by (rule IHv) (use le in simp)
    have 2: "halts R k (visitObjectPropertiesWithComputedNames n R b)"
      if "b \<in> set (operands R a)" for b
    proof (rule IHc)
      from operand_earlier [OF wf that] have "b < a" .
      with le True show "(if b < length (heap R) then Suc b else 0) + fuelFor R k \<le> n"
        by simp
    qed
    show ?thesis
      unfolding chain_Suc by (rule halts_chain_body) (rule 1 2, assumption?)+
  qed
  show ?case using v c by blast
qed

lemma halts_visitValue:
  "abstract_operands_earlier R \<Longrightarrow> fuelFor R k \<le> n \<Longrightarrow> halts R k (visitValue n R v)"
  using halts_visitValue_chain [of R n] by blast

lemma halts_chain:
  "abstract_operands_earlier R \<Longrightarrow> fuelFor R (Suc k) \<le> Suc n \<Longrightarrow>
   halts R k (visitObjectPropertiesWithComputedNames n R a)"
proof -
  assume wf: "abstract_operands_earlier R" and f: "fuelFor R (Suc k) \<le> Suc n"
  then have "(if a < length (heap R) then Suc a else 0) + fuelFor R k \<le> n"
    by (auto simp: fuelFor_Suc)
  with halts_visitValue_chain [OF wf, of n] show ?thesis by blast
qed

lemma unvisited_le: "unvisited R st \<le> length (heap R)"
  unfolding unvisited_def using card_mono [of "{..<length (heap R)}"
      "{..<length (heap R)} - set (visitedValues st)"] by simp

lemma halts_visitRoots:
  "abstract_operands_earlier R \<Longrightarrow> fuelFor R (length (heap R)) \<le> n \<Longrightarrow>
   halts R (length (heap R)) (visitRoots n R mods)"
  unfolding visitRoots_def visitGenerator_def
  by (intro halts_intros halts_visitValue)


section \<open>The visit of one value\<close>

text \<open>
  A value that is not in the set yet is added and dispatched on. An object that is neither
  intrinsic nor a proxy has its properties visited first, whatever it is: the own properties,
  the unknown property, the prototype, the prototype object of a constructor.
\<close>

lemma visitValue_enter:
  "val \<notin> set (visitedValues st) \<Longrightarrow>
   visitValue (Suc n) R val st
     = dispatch (visitValue n R) (visitObjectPropertiesWithComputedNames n R) R val
         (st\<lparr>visitedValues := visitedValues st @ [val]\<rparr>)"
  by (simp add: visitValue_Suc visitValue_body_run)

lemma dispatch_object:
  "cls (lookup R val) = ObjectValue obj \<Longrightarrow> \<not> isIntrinsic (lookup R val) \<Longrightarrow>
   dispatch visit chain R val =
     (if IsArray R val then visitValueArray visit chain R val obj
      else case exotic obj of
             Proxy target handler \<Rightarrow> visitValueProxy visit target handler
           | Function f \<Rightarrow> visitValueFunction visit chain R val obj f
           | Ordinary \<Rightarrow> visitValueObject visit chain R val obj)"
  by (simp add: dispatch_def asAbstract_def isLeaf_def asObject_def asProxy_def asFunction_def
      split: Exotic.split)

lemma dispatch_properties:
  assumes "cls (lookup R val) = ObjectValue obj" and "\<not> isIntrinsic (lookup R val)"
    and "IsArray R val \<or> (\<forall>t h. exotic obj \<noteq> Proxy t h)"
  shows "dispatch visit chain R val =
     thenM (visitObjectProperties visit chain R val obj) (afterObjectProperties visit R val obj)"
proof (cases "IsArray R val")
  case True
  with assms show ?thesis
    by (simp add: dispatch_object visitValueArray_def afterObjectProperties_def)
next
  case False
  with assms(3) have np: "\<And>t h. exotic obj \<noteq> Proxy t h" by simp
  show ?thesis
  proof (cases "exotic obj")
    case Ordinary
    with False assms(1,2) show ?thesis
      by (simp add: dispatch_object visitValueObject_def afterObjectProperties_def)
  next
    case (Proxy t h)
    with np [of t h] show ?thesis by simp
  next
    case (Function f)
    with False assms(1,2) show ?thesis
      by (simp add: dispatch_object visitValueFunction_def afterObjectProperties_def)
  qed
qed

lemma visitObjectProperties_steps:
  "thenM (visitObjectProperties visit chain R val obj) m =
     thenM (forEach (visitProperty visit R val obj) (properties obj))
    (thenM (visitUnknownProperty chain R obj)
    (thenM (if intrinsics R (kind obj @ ''Prototype'') = Some (Prototype obj) then skipM
            else visit (Prototype obj))
    (thenM (if isFunctionValue obj then visitConstructorPrototype visit R val obj else skipM)
           m)))"
  by (simp only: visitObjectProperties_def visitObjectPrototype_def thenM_assoc)

lemma visitValue_returns:
  assumes "abstract_operands_earlier R" and "fuelFor R (length (heap R)) \<le> n"
  shows "visitValue n R v st \<noteq> OutOfFuel"
  using haltsD [OF halts_visitValue [OF assms, of v] unvisited_le [of R st]] by simp

lemma exampleRealm_operands: "abstract_operands_earlier exampleRealm"
  by (simp add: abstract_operands_earlier_def operands_def asAbstract_def lookup_def example_defs
      upt_rec)

lemma sound_afterObjectProperties:
  "(\<And>v. sound X (visit v)) \<Longrightarrow> val \<in> X \<Longrightarrow> sound X (afterObjectProperties visit R val obj)"
  unfolding afterObjectProperties_def
  by (intro sound_intros sound_case_Exotic sound_visitCaptures sound_modifyM extends_functionBindings
      sound_visitValueMap sound_visitValueSet)

section \<open>The prototype edge\<close>



section \<open>Map entries\<close>




section \<open>The prototype object of a constructor\<close>

text \<open>
  C10. An object whose \<open>originalConstructor\<close> is set is visited through its properties and
  prototype and then through that constructor, and \<open>visitValueObject\<close> returns there:
  whatever its kind, its \<open>$DateValue\<close>, its viewed buffer, its map and set data and its
  parameter map are not read, and no diagnostic about its kind is logged. So the call does the
  same on an object that differs in those slots only, and \<open>visitValue\<close> on a plain object
  (not intrinsic, not an array, not a proxy or a function) comes to the same.
\<close>

theorem visitValueObject_of_constructor_prototype:
  "originalConstructor obj = Some c \<longrightarrow>
     visitValueObject visit chain R val obj
       = thenM (visitObjectProperties visit chain R val obj) (visit c)
     \<and> visitValueObject visit chain R val obj
       = visitValueObject visit chain R val
           (obj\<lparr>DateValue := d, ViewedArrayBuffer := b, MapData := m, WeakMapData := wm,
                SetData := s, WeakSetData := ws, ParameterMap := p\<rparr>)
     \<and> (asObject R val = Some obj \<and> \<not> isIntrinsic (lookup R val) \<and> \<not> IsArray R val
          \<and> exotic obj = Ordinary \<longrightarrow>
          dispatch visit chain R val
            = thenM (visitObjectProperties visit chain R val obj) (visit c))"
proof (intro impI conjI)
  assume c: "originalConstructor obj = Some c"
  show 1: "\<And>obj. originalConstructor obj = Some c \<Longrightarrow> visitValueObject visit chain R val obj
       = thenM (visitObjectProperties visit chain R val obj) (visit c)"
    by (simp add: visitValueObject_def)
  define obj' where "obj' = obj\<lparr>DateValue := d, ViewedArrayBuffer := b, MapData := m,
    WeakMapData := wm, SetData := s, WeakSetData := ws, ParameterMap := p\<rparr>"
  have idc: "isDefaultConstructorProperty obj' = isDefaultConstructorProperty obj"
    by (intro ext) (simp add: isDefaultConstructorProperty_def obj'_def)
  have slots: "kind obj' = kind obj" "exotic obj' = exotic obj"
    by (simp_all add: obj'_def)
  have ci: "canIgnoreProperty R val obj' = canIgnoreProperty R val obj"
    by (intro ext, unfold canIgnoreProperty_def idc slots, rule refl)
  have vp: "visitProperty visit R val obj' = visitProperty visit R val obj"
    by (intro ext, unfold visitProperty_def ci, rule refl)
  have "visitObjectProperties visit chain R val obj' = visitObjectProperties visit chain R val obj"
    unfolding visitObjectProperties_def vp
    by (simp add: obj'_def visitUnknownProperty_def visitObjectPrototype_def
        isFunctionValue_def visitConstructorPrototype_def getPropertyValue_def)
  moreover have "originalConstructor obj' = Some c" using c by (simp add: obj'_def)
  ultimately have "visitValueObject visit chain R val obj = visitValueObject visit chain R val obj'"
    using c by (simp add: 1)
  then show "visitValueObject visit chain R val obj
       = visitValueObject visit chain R val
           (obj\<lparr>DateValue := d, ViewedArrayBuffer := b, MapData := m, WeakMapData := wm,
                SetData := s, WeakSetData := ws, ParameterMap := p\<rparr>)"
    by (simp add: obj'_def)
  assume "asObject R val = Some obj \<and> \<not> isIntrinsic (lookup R val) \<and> \<not> IsArray R val
          \<and> exotic obj = Ordinary"
  then show "dispatch visit chain R val
            = thenM (visitObjectProperties visit chain R val obj) (visit c)"
    using 1 [OF c]
    by (auto simp: dispatch_def asObject_def asAbstract_def isLeaf_def asProxy_def asFunction_def
        split: ValueClass.splits)
qed

theorem visitValueObject_of_constructor_prototype_witness:
  "visitValueObject (visitValue 3 exampleRealm) (visitObjectPropertiesWithComputedNames 3 exampleRealm)
       exampleRealm 18 exampleDate
     = thenM (visitObjectProperties (visitValue 3 exampleRealm)
                (visitObjectPropertiesWithComputedNames 3 exampleRealm) exampleRealm 18 exampleDate)
             (visitValue 3 exampleRealm 14)
   \<and> dispatch (visitValue 3 exampleRealm) (visitObjectPropertiesWithComputedNames 3 exampleRealm)
       exampleRealm 18
     = thenM (visitObjectProperties (visitValue 3 exampleRealm)
                (visitObjectPropertiesWithComputedNames 3 exampleRealm) exampleRealm 18 exampleDate)
             (visitValue 3 exampleRealm 14)
   \<and> kind exampleDate = ''Date'' \<and> DateValue exampleDate = Some 11
   \<and> map_option visitedValues (stateOf (visitValue 4 exampleRealm 18 newVisitor)) = Some [18, 0, 14, 5]
   \<and> map_option logged (stateOf (visitValue 4 exampleRealm 18 newVisitor)) = Some []"
proof -
  have a: "originalConstructor exampleDate = Some 14" by (simp add: example_defs)
  have b: "asObject exampleRealm 18 = Some exampleDate \<and> \<not> isIntrinsic (lookup exampleRealm 18)
      \<and> \<not> IsArray exampleRealm 18 \<and> exotic exampleDate = Ordinary"
    by (simp add: example_defs visitor_defs)
  note T = visitValueObject_of_constructor_prototype [of exampleDate 14
      "visitValue 3 exampleRealm" "visitObjectPropertiesWithComputedNames 3 exampleRealm"
      exampleRealm 18, THEN mp, OF a]
  have "\<exists>s. visitValue 4 exampleRealm 18 newVisitor = Ok () s
      \<and> visitedValues s = [18, 0, 14, 5] \<and> logged s = []"
    by (simp add: eval_nat_numeral monad_defs example_defs visitor_defs Let_def)
  then have run: "map_option visitedValues (stateOf (visitValue 4 exampleRealm 18 newVisitor))
        = Some [18, 0, 14, 5]
      \<and> map_option logged (stateOf (visitValue 4 exampleRealm 18 newVisitor)) = Some []"
    by (auto simp: stateOf_def)
  have k: "kind exampleDate = ''Date'' \<and> DateValue exampleDate = Some 11"
    by (simp add: example_defs)
  show ?thesis
    using T b run k by blast
qed

section \<open>Objects the visitor does not support\<close>

text \<open>
  C4 says that a visited object with a parameter map (the shape of an arguments object) gets
  the diagnostic for arguments objects. The visitor tests \<open>this.$ParameterMap\<close>, its own
  field and not the object's, so the diagnostic is never logged: visiting the arguments object
  of the example heap logs nothing.
\<close>

theorem arguments_object_is_not_reported:
  "asObject exampleRealm 19 = Some exampleArguments
   \<and> ParameterMap exampleArguments = Some 8
   \<and> kind exampleArguments = ''Object''
   \<and> originalConstructor exampleArguments = None
   \<and> visitValue 2 exampleRealm 19 newVisitor = Ok () (newVisitor\<lparr>visitedValues := [19]\<rparr>)
   \<and> logged (newVisitor\<lparr>visitedValues := [19]\<rparr>) = []"
  by (simp add: eval_nat_numeral monad_defs example_defs visitor_defs)

section \<open>The length of an array\<close>

lemma addIgnoredProperty_run:
  "\<exists>st'. addIgnoredProperty val key st = Ok () st' \<and> visitedValues st' = visitedValues st
     \<and> (\<exists>s. ignoredProperties st' val = Some s \<and> key \<in> set s)"
  by (simp add: addIgnoredProperty_def modifyM_def Set_add_def)

lemma visitDescriptor_value_visited:
  assumes "visitDescriptor (visitValue n R) desc st = Ok () st'" and "desc_value desc = Some v"
  shows "v \<in> set (visitedValues st')"
proof -
  from assms obtain s where s: "visitValue n R v st = Ok () s"
    and rest: "thenM (whenSome (desc_get desc) (visitValue n R))
                 (whenSome (desc_set desc) (visitValue n R)) s = Ok () st'"
    by (auto simp: visitDescriptor_def thenM_Ok whenSome_def)
  have "sound {} (thenM (whenSome (desc_get desc) (visitValue n R))
                 (whenSome (desc_set desc) (visitValue n R)))"
    by (intro sound_intros sound_visitValue)
  from soundD_Ok [OF this rest] visitValue_Ok_visited [OF s]
  show ?thesis by (auto dest!: extends_values_subset)
qed

text \<open>
  C5. On an array, a \<open>length\<close> property that is writable, not enumerable and not
  configurable is put in the object's set of ignored properties and its descriptor is not
  visited; when \<open>Get\<close> of the length is a concrete number, \<open>visitValueArray\<close> visits
  nothing after the properties either. A \<open>length\<close> that is enumerable is not ignored, and
  the value of its descriptor is visited.
\<close>

theorem array_length_with_default_descriptor_is_ignored:
  "IsArray R val \<longrightarrow>
     (writable desc \<and> \<not> enumerable desc \<and> \<not> configurable desc \<longrightarrow>
        visitProperty visit R val obj (''length'', Some (PropertyBinding (Some desc)))
          = addIgnoredProperty val ''length''
        \<and> (\<forall>st. \<exists>st'. addIgnoredProperty val ''length'' st = Ok () st'
               \<and> visitedValues st' = visitedValues st
               \<and> (\<exists>s. ignoredProperties st' val = Some s \<and> ''length'' \<in> set s)))
     \<and> (\<forall>len x. Get R val ''length'' = Some len
            \<and> cls (lookup R len) = PrimitiveValue (NumberValue x) \<longrightarrow>
          visitValueArray visit chain R val obj = visitObjectProperties visit chain R val obj)
     \<and> (enumerable desc \<longrightarrow>
          canIgnoreProperty R val obj ''length'' desc = returnM False
        \<and> visitProperty visit R val obj (''length'', Some (PropertyBinding (Some desc)))
          = visitDescriptor visit desc
        \<and> (\<forall>len n st st'. desc_value desc = Some len
              \<and> visitDescriptor (visitValue n R) desc st = Ok () st' \<longrightarrow>
              len \<in> set (visitedValues st')))"
proof (intro impI conjI allI)
  assume arr: "IsArray R val"
  {
    assume d: "writable desc \<and> \<not> enumerable desc \<and> \<not> configurable desc"
    with arr show "visitProperty visit R val obj (''length'', Some (PropertyBinding (Some desc)))
          = addIgnoredProperty val ''length''"
      by (intro ext) (simp add: visitProperty_def canIgnoreProperty_def bindM_def returnM_def)
    fix st
    show "\<exists>st'. addIgnoredProperty val ''length'' st = Ok () st'
               \<and> visitedValues st' = visitedValues st
               \<and> (\<exists>s. ignoredProperties st' val = Some s \<and> ''length'' \<in> set s)"
      by (rule addIgnoredProperty_run)
  }
  {
    fix len x
    assume "Get R val ''length'' = Some len \<and> cls (lookup R len) = PrimitiveValue (NumberValue x)"
    then show "visitValueArray visit chain R val obj = visitObjectProperties visit chain R val obj"
      by (simp add: visitValueArray_def isAbstract_def)
  }
  {
    assume e: "enumerable desc"
    with arr show ci: "canIgnoreProperty R val obj ''length'' desc = returnM False"
      by (simp add: canIgnoreProperty_def isDefaultConstructorProperty_def)
    show "visitProperty visit R val obj (''length'', Some (PropertyBinding (Some desc)))
          = visitDescriptor visit desc"
      by (intro ext) (simp add: visitProperty_def ci bindM_def returnM_def)
    fix len n st st'
    assume "desc_value desc = Some len \<and> visitDescriptor (visitValue n R) desc st = Ok () st'"
    then show "len \<in> set (visitedValues st')"
      using visitDescriptor_value_visited by blast
  }
qed

theorem array_length_with_default_descriptor_is_ignored_witness:
  "visitProperty (visitValue 1 exampleRealm) exampleRealm 6 exampleArray
       (''length'', dataProperty 5 True False False)
     = addIgnoredProperty 6 ''length''
   \<and> visitValueArray (visitValue 1 exampleRealm) (visitObjectPropertiesWithComputedNames 1 exampleRealm)
       exampleRealm 6 exampleArray
     = visitObjectProperties (visitValue 1 exampleRealm)
         (visitObjectPropertiesWithComputedNames 1 exampleRealm) exampleRealm 6 exampleArray
   \<and> map_option visitedValues (stateOf (visitValue 2 exampleRealm 6 newVisitor)) = Some [6]
   \<and> map_option (\<lambda>s. ignoredProperties s 6) (stateOf (visitValue 2 exampleRealm 6 newVisitor))
     = Some (Some [''length''])
   \<and> visitProperty (visitValue 1 exampleRealm) exampleRealm 7 exampleOddArray
       (''length'', dataProperty 5 True True False)
     = visitDescriptor (visitValue 1 exampleRealm)
         \<lparr>desc_value = Some 5, desc_get = None, desc_set = None,
          writable = True, enumerable = True, configurable = False\<rparr>
   \<and> map_option visitedValues (stateOf (visitValue 2 exampleRealm 7 newVisitor)) = Some [7, 5, 0]
   \<and> map_option (\<lambda>s. ignoredProperties s 7) (stateOf (visitValue 2 exampleRealm 7 newVisitor))
     = Some None"
proof -
  note T = array_length_with_default_descriptor_is_ignored
  let ?d = "\<lparr>desc_value = Some 5, desc_get = None, desc_set = None,
          writable = True, enumerable = False, configurable = False\<rparr>"
  let ?e = "\<lparr>desc_value = Some 5, desc_get = None, desc_set = None,
          writable = True, enumerable = True, configurable = False\<rparr>"
  have a6: "IsArray exampleRealm 6" and a7: "IsArray exampleRealm 7"
    by (simp_all add: example_defs)
  have d: "writable ?d \<and> \<not> enumerable ?d \<and> \<not> configurable ?d" by simp
  have e: "enumerable ?e" by simp
  have g: "Get exampleRealm 6 ''length'' = Some 5
      \<and> cls (lookup exampleRealm 5) = PrimitiveValue (NumberValue 2)"
    by (simp add: example_defs lookup_def)
  have 1: "visitProperty (visitValue 1 exampleRealm) exampleRealm 6 exampleArray
       (''length'', Some (PropertyBinding (Some ?d))) = addIgnoredProperty 6 ''length''"
    using T [of exampleRealm 6 ?d "visitValue 1 exampleRealm" exampleArray] a6 d by blast
  have 2: "visitValueArray (visitValue 1 exampleRealm)
       (visitObjectPropertiesWithComputedNames 1 exampleRealm) exampleRealm 6 exampleArray
     = visitObjectProperties (visitValue 1 exampleRealm)
         (visitObjectPropertiesWithComputedNames 1 exampleRealm) exampleRealm 6 exampleArray"
    using T [of exampleRealm 6 ?d "visitValue 1 exampleRealm" exampleArray
        "visitObjectPropertiesWithComputedNames 1 exampleRealm"] a6 g by blast
  have 3: "visitProperty (visitValue 1 exampleRealm) exampleRealm 7 exampleOddArray
       (''length'', Some (PropertyBinding (Some ?e))) = visitDescriptor (visitValue 1 exampleRealm) ?e"
    using T [of exampleRealm 7 ?e "visitValue 1 exampleRealm" exampleOddArray] a7 e by blast
  have "\<exists>s. visitValue 2 exampleRealm 6 newVisitor = Ok () s
      \<and> visitedValues s = [6] \<and> ignoredProperties s 6 = Some [''length'']"
    by (simp add: eval_nat_numeral monad_defs example_defs visitor_defs)
  then have r6: "map_option visitedValues (stateOf (visitValue 2 exampleRealm 6 newVisitor)) = Some [6]
   \<and> map_option (\<lambda>s. ignoredProperties s 6) (stateOf (visitValue 2 exampleRealm 6 newVisitor))
     = Some (Some [''length''])"
    by (auto simp: stateOf_def)
  have "\<exists>s. visitValue 2 exampleRealm 7 newVisitor = Ok () s
      \<and> visitedValues s = [7, 5, 0] \<and> ignoredProperties s 7 = None"
    by (simp add: eval_nat_numeral monad_defs example_defs visitor_defs)
  then have r7: "map_option visitedValues (stateOf (visitValue 2 exampleRealm 7 newVisitor))
      = Some [7, 5, 0]
   \<and> map_option (\<lambda>s. ignoredProperties s 7) (stateOf (visitValue 2 exampleRealm 7 newVisitor))
     = Some None"
    by (auto simp: stateOf_def)
  show ?thesis
    using 1 2 3 r6 r7 by (simp add: dataProperty_def)
qed

section \<open>Abstract values\<close>




section \<open>A reference with a symbol for its name\<close>

lemma visitCaptures_append:
  "visitCaptures visit R env info (pre @ rest) vbs
     = bindM (visitCaptures visit R env info pre vbs) (visitCaptures visit R env info rest)"
  by (induction pre arbitrary: vbs) (simp_all add: bindM_returnM bindM_assoc bindM_thenM)

lemma resolveCapture_symbol:
  "ResolveBinding R x env = Some (Reference b (SymbolName s)) \<Longrightarrow> b \<noteq> BaseUndefined \<Longrightarrow>
   resolveCapture visit R env x = failM SymbolReference"
  by (simp add: resolveCapture_def)

lemma visitCaptures_symbol_never_Ok:
  assumes "ResolveBinding R x env = Some (Reference b (SymbolName s))" and "b \<noteq> BaseUndefined"
  shows "x \<in> set names \<Longrightarrow> visitCaptures visit R env info names vbs st \<noteq> Ok u st'"
proof (induction names arbitrary: vbs st)
  case Nil
  then show ?case by simp
next
  case (Cons n ns)
  show ?case
  proof (cases "n = x")
    case True
    then show ?thesis
      by (simp add: resolveCapture_symbol [OF assms] bindM_def failM_def)
  next
    case False
    with Cons.prems have "x \<in> set ns" by simp
    from Cons.IH [OF this] show ?thesis
      by (auto simp: bindM_def thenM_def setModified_def modifyM_def skipM_def returnM_def
          split: Outcome.splits)
  qed
qed

lemma extends_captures_kept:
  "extends X st st' \<Longrightarrow> val \<in> set (visitedValues st) \<Longrightarrow> val \<notin> X \<Longrightarrow>
   functionBindings st' val = functionBindings st val"
  unfolding extends_def captures_kept_def by blast

text \<open>
  C8. When a free name of a function body resolves to a reference whose name is a symbol, the
  resolution throws: nothing is logged and no table changes at that step, the loop over the
  names never returns, and \<open>visitValueFunction\<close> ends with the fatal error in the state the
  names before it left, so the function gets no capture table (the one it had, if any, is
  untouched).
\<close>

theorem symbol_named_reference_aborts_the_pass:
  "ResolveBinding R x env = Some (Reference b (SymbolName s)) \<and> b \<noteq> BaseUndefined \<longrightarrow>
     resolveCapture visit R env x st = Fatal SymbolReference st
   \<and> (\<forall>names vbs st0 u st'. x \<in> set names \<longrightarrow>
         visitCaptures visit R env info names vbs st0 \<noteq> Ok u st')
   \<and> (\<forall>n val obj f fp c resid st0 st1 st2 pre post vbs.
         variant f = PlainFunction (Some fp) (Some c) env resid
         \<and> visitObjectProperties (visitValue n R) (visitObjectPropertiesWithComputedNames n R)
              R val obj st0 = Ok () st1
         \<and> getFunctionInfo R val fp c resid st1 = Ok info st2
         \<and> info_names info = pre @ x # post
         \<and> visitCaptures (visitValue n R) R env info pre Map.empty st2 = Ok vbs st
         \<longrightarrow>
         visitValueFunction (visitValue n R) (visitObjectPropertiesWithComputedNames n R)
           R val obj f st0 = Fatal SymbolReference st
         \<and> (val \<in> set (visitedValues st0) \<longrightarrow> functionBindings st val = functionBindings st0 val))"
proof (intro impI conjI allI)
  assume a: "ResolveBinding R x env = Some (Reference b (SymbolName s)) \<and> b \<noteq> BaseUndefined"
  then have rc: "\<And>visit. resolveCapture visit R env x = failM SymbolReference"
    by (simp add: resolveCapture_symbol)
  show "resolveCapture visit R env x st = Fatal SymbolReference st"
    by (simp add: rc failM_def)
  {
    fix names vbs st0 u st' assume "x \<in> set names"
    then show "visitCaptures visit R env info names vbs st0 \<noteq> Ok u st'"
      using visitCaptures_symbol_never_Ok a by blast
  }
  fix n val obj and f :: FunctionSlots and fp c resid st0 st1 st2 pre post vbs
  let ?visit = "visitValue n R" and ?chain = "visitObjectPropertiesWithComputedNames n R"
  assume h: "variant f = PlainFunction (Some fp) (Some c) env resid
         \<and> visitObjectProperties ?visit ?chain R val obj st0 = Ok () st1
         \<and> getFunctionInfo R val fp c resid st1 = Ok info st2
         \<and> info_names info = pre @ x # post
         \<and> visitCaptures ?visit R env info pre Map.empty st2 = Ok vbs st"
  have loop: "visitCaptures ?visit R env info (info_names info) Map.empty st2
      = Fatal SymbolReference st"
    using h by (simp add: visitCaptures_append bindM_def rc failM_def)
  show "visitValueFunction ?visit ?chain R val obj f st0 = Fatal SymbolReference st"
    using h loop by (simp add: visitValueFunction_def thenM_def bindM_def)
  {
    assume v: "val \<in> set (visitedValues st0)"
    have "sound {} (visitObjectProperties ?visit ?chain R val obj)"
      by (intro sound_visitObjectProperties sound_visitValue sound_chain)
    from soundD_Ok [OF this] h have 1: "extends {} st0 st1" by blast
    have 2: "extends {} st1 st2"
      using h soundD_Ok [OF sound_getFunctionInfo] by blast
    have "sound {} (visitCaptures ?visit R env info pre Map.empty)"
      by (intro sound_visitCaptures sound_visitValue)
    from soundD_Ok [OF this] h have 3: "extends {} st2 st" by blast
    from 1 2 3 have "extends {} st0 st" by (blast intro: extends_trans)
    from extends_captures_kept [OF this v]
    show "functionBindings st val = functionBindings st0 val" by simp
  }
qed

theorem symbol_named_reference_aborts_the_pass_witness:
  "resolveCapture (visitValue 1 exampleRealm) exampleRealm 1 ''s''
       (newVisitor\<lparr>visitedValues := [16], functionInfos := [1 \<mapsto> exampleScan [] 1]\<rparr>)
     = Fatal SymbolReference
         (newVisitor\<lparr>visitedValues := [16], functionInfos := [1 \<mapsto> exampleScan [] 1]\<rparr>)
   \<and> visitValueFunction (visitValue 1 exampleRealm)
       (visitObjectPropertiesWithComputedNames 1 exampleRealm) exampleRealm 16 exampleSymbolClosure
       \<lparr>Strict = False, FunctionKind = ''normal'', hasDefaultLength = True,
        variant = PlainFunction (Some []) (Some 1) 1 False\<rparr>
       (newVisitor\<lparr>visitedValues := [16]\<rparr>)
     = Fatal SymbolReference
         (newVisitor\<lparr>visitedValues := [16], functionInfos := [1 \<mapsto> exampleScan [] 1]\<rparr>)
   \<and> functionBindings
         (newVisitor\<lparr>visitedValues := [16], functionInfos := [1 \<mapsto> exampleScan [] 1]\<rparr>) 16
     = functionBindings (newVisitor\<lparr>visitedValues := [16]\<rparr>) 16
   \<and> visitValue 2 exampleRealm 16 newVisitor
     = Fatal SymbolReference
         (newVisitor\<lparr>visitedValues := [16], functionInfos := [1 \<mapsto> exampleScan [] 1]\<rparr>)"
proof -
  let ?init = "newVisitor\<lparr>visitedValues := [16]\<rparr>"
  let ?st = "newVisitor\<lparr>visitedValues := [16], functionInfos := [1 \<mapsto> exampleScan [] 1]\<rparr>"
  let ?f = "\<lparr>Strict = False, FunctionKind = ''normal'', hasDefaultLength = True,
        variant = PlainFunction (Some []) (Some 1) 1 False\<rparr>"
  let ?visit = "visitValue 1 exampleRealm"
  let ?chain = "visitObjectPropertiesWithComputedNames 1 exampleRealm"
  have a: "ResolveBinding exampleRealm ''s'' 1
        = Some (Reference (DeclarativeEnvironmentRecord 0) (SymbolName 17))
      \<and> DeclarativeEnvironmentRecord 0 \<noteq> BaseUndefined"
    by (simp add: example_defs)
  note T = symbol_named_reference_aborts_the_pass
    [of exampleRealm "''s''" 1 "DeclarativeEnvironmentRecord 0" 17 ?visit ?st "exampleScan [] 1",
     THEN mp, OF a]
  have h: "variant ?f = PlainFunction (Some []) (Some 1) 1 False
         \<and> visitObjectProperties ?visit ?chain exampleRealm 16 exampleSymbolClosure ?init = Ok () ?init
         \<and> getFunctionInfo exampleRealm 16 [] 1 False ?init = Ok (exampleScan [] 1) ?st
         \<and> info_names (exampleScan [] 1) = [] @ ''s'' # []
         \<and> visitCaptures ?visit exampleRealm 1 (exampleScan [] 1) [] Map.empty ?st
              = Ok Map.empty ?st"
    by (simp add: monad_defs example_defs visitor_defs Let_def)
  have v: "16 \<in> set (visitedValues ?init)" by simp
  have run: "visitValue 2 exampleRealm 16 newVisitor = Fatal SymbolReference ?st"
    by (simp add: eval_nat_numeral monad_defs example_defs visitor_defs Let_def)
  from T have 1: "resolveCapture ?visit exampleRealm 1 ''s'' ?st = Fatal SymbolReference ?st"
    by blast
  from T h v have 2: "visitValueFunction ?visit ?chain exampleRealm 16 exampleSymbolClosure ?f ?init
        = Fatal SymbolReference ?st
      \<and> functionBindings ?st 16 = functionBindings ?init 16"
    by blast
  note 3 = 2 [THEN conjunct1] and 4 = 2 [THEN conjunct2]
  show ?thesis
    by (intro conjI) (fact 1 3 4 run)+
qed

section \<open>The capture table of a function\<close>















theorem the_pass_is_deterministic:
  "visitRoots n R initializedModules newVisitor \<noteq> OutOfFuel
   \<and> visitRoots m R initializedModules newVisitor \<noteq> OutOfFuel \<longrightarrow>
     visitRoots n R initializedModules newVisitor = visitRoots m R initializedModules newVisitor
     \<and> map_option visitedValues (stateOf (visitRoots n R initializedModules newVisitor))
       = map_option visitedValues (stateOf (visitRoots m R initializedModules newVisitor))
     \<and> map_option ignoredProperties (stateOf (visitRoots n R initializedModules newVisitor))
       = map_option ignoredProperties (stateOf (visitRoots m R initializedModules newVisitor))
     \<and> map_option (\<lambda>st. (globalBindings st, declarativeEnvironmentRecordsBindings st,
                             visitedBindings st))
           (stateOf (visitRoots n R initializedModules newVisitor))
       = map_option (\<lambda>st. (globalBindings st, declarativeEnvironmentRecordsBindings st,
                               visitedBindings st))
           (stateOf (visitRoots m R initializedModules newVisitor))
     \<and> map_option functionBindings (stateOf (visitRoots n R initializedModules newVisitor))
       = map_option functionBindings (stateOf (visitRoots m R initializedModules newVisitor))"
proof (intro impI)
  assume a: "visitRoots n R initializedModules newVisitor \<noteq> OutOfFuel
   \<and> visitRoots m R initializedModules newVisitor \<noteq> OutOfFuel"
  have "visitRoots n R initializedModules newVisitor = visitRoots m R initializedModules newVisitor"
  proof (cases "n \<le> m")
    case True
    then obtain k where "m = n + k" using le_Suc_ex by blast
    with refines_visitRoots [of n R initializedModules k] a show ?thesis
      unfolding refines_def by metis
  next
    case False
    then obtain k where "n = m + k" using le_Suc_ex nat_le_linear by blast
    with refines_visitRoots [of m R initializedModules k] a show ?thesis
      unfolding refines_def by metis
  qed
  then show "visitRoots n R initializedModules newVisitor = visitRoots m R initializedModules newVisitor
     \<and> map_option visitedValues (stateOf (visitRoots n R initializedModules newVisitor))
       = map_option visitedValues (stateOf (visitRoots m R initializedModules newVisitor))
     \<and> map_option ignoredProperties (stateOf (visitRoots n R initializedModules newVisitor))
       = map_option ignoredProperties (stateOf (visitRoots m R initializedModules newVisitor))
     \<and> map_option (\<lambda>st. (globalBindings st, declarativeEnvironmentRecordsBindings st,
                             visitedBindings st))
           (stateOf (visitRoots n R initializedModules newVisitor))
       = map_option (\<lambda>st. (globalBindings st, declarativeEnvironmentRecordsBindings st,
                               visitedBindings st))
           (stateOf (visitRoots m R initializedModules newVisitor))
     \<and> map_option functionBindings (stateOf (visitRoots n R initializedModules newVisitor))
       = map_option functionBindings (stateOf (visitRoots m R initializedModules newVisitor))"
    by simp
qed

end
